theory Spec2Isabelle
  imports Main
begin

section \<open>Chess rules engine: data model\<close>

text \<open>
  The engine is the TypeScript program of \<^verbatim>\<open>src/unnamed/part_000\<close>. Enumerations are
  datatypes, the immutable value objects \<^verbatim>\<open>Position\<close> and \<^verbatim>\<open>Move\<close> are
  datatypes compared structurally (as their \<^verbatim>\<open>equals\<close> methods do), and the mutable
  classes \<^verbatim>\<open>Piece\<close>, \<^verbatim>\<open>Board\<close> and \<^verbatim>\<open>ChessGame\<close> are records.
\<close>

datatype PieceType = PAWN | ROOK | KNIGHT | BISHOP | QUEEN | KING

datatype Color = WHITE | BLACK

datatype GameState = ONGOING | CHECK | CHECKMATE | STALEMATE | DRAW

datatype error =
    InvalidPosition
  | InvalidNotation
  | NoPieceAtSource
  | NoKingForCastling
  | NoRookForCastling
  | NoPawnForEnPassant
  | TypeError

text \<open>
  A computation that only reads the state either runs out of recursion budget
  (\<open>OutOfFuel\<close>: the source recursion has not returned within the budget, and the
  engine ends it with the \<^verbatim>\<open>RangeError\<close> of an exhausted call stack), throws, or returns
  a value.
\<close>

datatype 'a outcome = OutOfFuel | Raise error | Return 'a

text \<open>
  A computation that mutates objects leaves a state \<open>'s\<close> behind, when it returns, when it
  throws and when it runs out of budget (\<open>Diverges\<close>): a caller that catches the exception,
  the stack overflow included, sees the mutations made so far.
\<close>

datatype ('a, 's) effect = Diverges 's | Throws error 's | Returns 'a 's

definition andThen :: "'a outcome \<Rightarrow> ('a \<Rightarrow> 'b outcome) \<Rightarrow> 'b outcome" where
  "andThen m f = (case m of OutOfFuel \<Rightarrow> OutOfFuel | Raise e \<Rightarrow> Raise e | Return x \<Rightarrow> f x)"

datatype Position = Position (row: int) (col: int)

text \<open>The range check of the \<^verbatim>\<open>Position\<close> constructor.\<close>

definition validPosition :: "Position \<Rightarrow> bool" where
  "validPosition p \<longleftrightarrow> 0 \<le> row p \<and> row p \<le> 7 \<and> 0 \<le> col p \<and> col p \<le> 7"

definition newPosition :: "int \<Rightarrow> int \<Rightarrow> Position outcome" where
  "newPosition r c =
     (if r < 0 \<or> r > 7 \<or> c < 0 \<or> c > 7 then Raise InvalidPosition
      else Return (Position r c))"

datatype Move = Move
  (fromPos: Position)
  (toPos: Position)
  (promotionPiece: "PieceType option")
  (isCastling: bool)
  (isEnPassant: bool)

text \<open>
  A piece is an object: the board's cells hold references to pieces, and the mutable
  \<^verbatim>\<open>_hasMoved\<close> flag lives in the object. The store of piece objects is a list indexed by
  reference; \<^verbatim>\<open>new\<close> appends. The subclass of a piece is its \<open>pieceType\<close>
  (\<^verbatim>\<open>instanceof Rook\<close> is \<open>pieceType p = ROOK\<close>).
\<close>

record Piece =
  color :: Color
  pieceType :: PieceType
  hasMoved :: bool

type_synonym ref = nat

type_synonym heap = "Piece list"

definition createPiece :: "PieceType \<Rightarrow> Color \<Rightarrow> heap \<Rightarrow> ref \<times> heap" where
  "createPiece t c h = (length h, h @ [\<lparr>color = c, pieceType = t, hasMoved = False\<rparr>])"

definition markAsMoved :: "heap \<Rightarrow> ref \<Rightarrow> heap" where
  "markAsMoved h r = h[r := (h ! r)\<lparr>hasMoved := True\<rparr>]"

record Board =
  grid :: "ref option list list"
  moveHistory :: "Move list"
  capturedPieces :: "ref list"
  enPassantTarget :: "Position option"
  halfMoveClock :: nat
  fullMoveNumber :: nat

definition getPiece :: "Board \<Rightarrow> Position \<Rightarrow> ref option" where
  "getPiece b p = grid b ! nat (row p) ! nat (col p)"

definition setPiece :: "Board \<Rightarrow> Position \<Rightarrow> ref option \<Rightarrow> Board" where
  "setPiece b p x =
     b\<lparr>grid := (grid b)[nat (row p) := (grid b ! nat (row p))[nat (col p) := x]]\<rparr>"


definition indices :: "int list" where
  "indices = [0, 1, 2, 3, 4, 5, 6, 7]"

text \<open>The squares in the order of the nested \<^verbatim>\<open>for row / for col\<close> loops.\<close>

definition allSquares :: "Position list" where
  "allSquares = concat (map (\<lambda>r. map (\<lambda>c. Position r c) indices) indices)"

section \<open>Pseudo-legal move generation\<close>

text \<open>The row a pawn of the given colour promotes on.\<close>

definition backRank :: "Color \<Rightarrow> int" where
  "backRank c = (if c = WHITE then 0 else 7)"

definition promotionPieces :: "PieceType list" where
  "promotionPieces = [QUEEN, ROOK, BISHOP, KNIGHT]"

definition canEnPassant :: "heap \<Rightarrow> Board \<Rightarrow> Position \<Rightarrow> Position \<Rightarrow> bool" where
  "canEnPassant h b fromP toP =
     (case enPassantTarget b of
        None \<Rightarrow> False
      | Some target \<Rightarrow>
          (case getPiece b fromP of
             None \<Rightarrow> False
           | Some r \<Rightarrow>
               toP = target \<and> \<bar>col fromP - col toP\<bar> = 1 \<and>
               row fromP = row toP + (if color (h ! r) = WHITE then 1 else - 1)))"

definition pawnDirection :: "Piece \<Rightarrow> int" where
  "pawnDirection p = (if color p = WHITE then - 1 else 1)"

text \<open>
  The forward part of \<^verbatim>\<open>Pawn.getPossibleMoves\<close>. The square two steps ahead is built with
  the \<^verbatim>\<open>Position\<close> constructor before its row is tested, so the constructor's range error
  is a branch here.
\<close>

definition pawnForward :: "heap \<Rightarrow> Board \<Rightarrow> Piece \<Rightarrow> Position \<Rightarrow> Move list outcome" where
  "pawnForward h b p cur =
     (let direction = pawnDirection p; newRow = row cur + direction in
      if newRow \<ge> 0 \<and> newRow \<le> 7 then
        (let newPos = Position newRow (col cur) in
         if getPiece b newPos = None then
           (let one =
              (if newRow = 0 \<or> newRow = 7
               then map (\<lambda>t. Move cur newPos (Some t) False False) promotionPieces
               else [Move cur newPos None False False]) in
            if \<not> hasMoved p then
              andThen (newPosition (newRow + direction) (col cur)) (\<lambda>twoForward.
                if row twoForward \<ge> 0 \<and> row twoForward \<le> 7 \<and> getPiece b twoForward = None
                then Return (one @ [Move cur twoForward None False False])
                else Return one)
            else Return one)
         else Return [])
      else Return [])"

definition pawnCapture :: "heap \<Rightarrow> Board \<Rightarrow> Piece \<Rightarrow> Position \<Rightarrow> int \<Rightarrow> Move list" where
  "pawnCapture h b p cur colOffset =
     (let newRow = row cur + pawnDirection p; newCol = col cur + colOffset in
      if newCol \<ge> 0 \<and> newCol \<le> 7 \<and> newRow \<ge> 0 \<and> newRow \<le> 7 then
        (let capturePos = Position newRow newCol in
         case getPiece b capturePos of
           Some t \<Rightarrow>
             if color (h ! t) \<noteq> color p then
               (if newRow = 0 \<or> newRow = 7
                then map (\<lambda>t. Move cur capturePos (Some t) False False) promotionPieces
                else [Move cur capturePos None False False])
             else if canEnPassant h b cur capturePos
             then [Move cur capturePos None False True]
             else []
         | None \<Rightarrow>
             if canEnPassant h b cur capturePos
             then [Move cur capturePos None False True]
             else [])
      else [])"

definition Pawn_getPossibleMoves ::
  "heap \<Rightarrow> Board \<Rightarrow> Piece \<Rightarrow> Position \<Rightarrow> Move list outcome" where
  "Pawn_getPossibleMoves h b p cur =
     andThen (pawnForward h b p cur) (\<lambda>forward.
       Return (forward @ pawnCapture h b p cur (- 1) @ pawnCapture h b p cur 1))"

text \<open>
  One ray of a sliding piece: the \<^verbatim>\<open>for distance\<close> loop, over the distances still to try.
\<close>

fun ray :: "heap \<Rightarrow> Board \<Rightarrow> Piece \<Rightarrow> Position \<Rightarrow> int \<times> int \<Rightarrow> int list \<Rightarrow> Move list" where
  "ray h b p cur d [] = []"
| "ray h b p cur d (distance # rest) =
     (let newRow = row cur + fst d * distance; newCol = col cur + snd d * distance in
      if newRow < 0 \<or> newRow > 7 \<or> newCol < 0 \<or> newCol > 7 then []
      else
        (let newPos = Position newRow newCol in
         case getPiece b newPos of
           None \<Rightarrow> Move cur newPos None False False # ray h b p cur d rest
         | Some t \<Rightarrow>
             if color (h ! t) \<noteq> color p then [Move cur newPos None False False]
             else []))"

definition slide :: "heap \<Rightarrow> Board \<Rightarrow> Piece \<Rightarrow> Position \<Rightarrow> (int \<times> int) list \<Rightarrow> Move list" where
  "slide h b p cur directions =
     concat (map (\<lambda>d. ray h b p cur d [1, 2, 3, 4, 5, 6, 7]) directions)"

definition Rook_getPossibleMoves :: "heap \<Rightarrow> Board \<Rightarrow> Piece \<Rightarrow> Position \<Rightarrow> Move list" where
  "Rook_getPossibleMoves h b p cur = slide h b p cur [(0, 1), (0, - 1), (1, 0), (- 1, 0)]"

definition Bishop_getPossibleMoves :: "heap \<Rightarrow> Board \<Rightarrow> Piece \<Rightarrow> Position \<Rightarrow> Move list" where
  "Bishop_getPossibleMoves h b p cur = slide h b p cur [(1, 1), (1, - 1), (- 1, 1), (- 1, - 1)]"

definition Queen_getPossibleMoves :: "heap \<Rightarrow> Board \<Rightarrow> Piece \<Rightarrow> Position \<Rightarrow> Move list" where
  "Queen_getPossibleMoves h b p cur =
     slide h b p cur
       [(0, 1), (0, - 1), (1, 0), (- 1, 0), (1, 1), (1, - 1), (- 1, 1), (- 1, - 1)]"

text \<open>A leaping step, shared by the knight and the king's adjacent squares.\<close>

definition leap :: "heap \<Rightarrow> Board \<Rightarrow> Piece \<Rightarrow> Position \<Rightarrow> int \<times> int \<Rightarrow> Move list" where
  "leap h b p cur d =
     (let newRow = row cur + fst d; newCol = col cur + snd d in
      if newRow \<ge> 0 \<and> newRow \<le> 7 \<and> newCol \<ge> 0 \<and> newCol \<le> 7 then
        (let newPos = Position newRow newCol in
         case getPiece b newPos of
           None \<Rightarrow> [Move cur newPos None False False]
         | Some t \<Rightarrow>
             if color (h ! t) \<noteq> color p then [Move cur newPos None False False] else [])
      else [])"

definition Knight_getPossibleMoves :: "heap \<Rightarrow> Board \<Rightarrow> Piece \<Rightarrow> Position \<Rightarrow> Move list" where
  "Knight_getPossibleMoves h b p cur =
     concat (map (leap h b p cur)
       [(- 2, - 1), (- 2, 1), (- 1, - 2), (- 1, 2), (1, - 2), (1, 2), (2, - 1), (2, 1)])"

definition kingAdjacent :: "heap \<Rightarrow> Board \<Rightarrow> Piece \<Rightarrow> Position \<Rightarrow> Move list" where
  "kingAdjacent h b p cur =
     concat (map (leap h b p cur)
       [(0, 1), (0, - 1), (1, 0), (- 1, 0), (1, 1), (1, - 1), (- 1, 1), (- 1, - 1)])"

definition opponent :: "Color \<Rightarrow> Color" where
  "opponent c = (if c = WHITE then BLACK else WHITE)"

definition findKing :: "heap \<Rightarrow> Board \<Rightarrow> Color \<Rightarrow> Position option" where
  "findKing h b c =
     find (\<lambda>pos. case getPiece b pos of
                   None \<Rightarrow> False
                 | Some r \<Rightarrow> pieceType (h ! r) = KING \<and> color (h ! r) = c) allSquares"

text \<open>
  \<^verbatim>\<open>Array.some\<close> and \<^verbatim>\<open>Array.every\<close> over a callback that may not return: both stop at
  the first element that decides the answer.
\<close>

fun someM :: "('a \<Rightarrow> bool outcome) \<Rightarrow> 'a list \<Rightarrow> bool outcome" where
  "someM f [] = Return False"
| "someM f (x # xs) =
     (case f x of
        OutOfFuel \<Rightarrow> OutOfFuel
      | Raise e \<Rightarrow> Raise e
      | Return t \<Rightarrow> if t then Return True else someM f xs)"

fun everyM :: "('a \<Rightarrow> bool outcome) \<Rightarrow> 'a list \<Rightarrow> bool outcome" where
  "everyM f [] = Return True"
| "everyM f (x # xs) =
     (case f x of
        OutOfFuel \<Rightarrow> OutOfFuel
      | Raise e \<Rightarrow> Raise e
      | Return t \<Rightarrow> if t then everyM f xs else Return False)"

text \<open>
  \<^verbatim>\<open>Board.isPositionUnderAttack\<close>, \<^verbatim>\<open>Board.isInCheck\<close>, \<^verbatim>\<open>King.getPossibleMoves\<close> and
  the dispatch on the piece's class call each other: an attack query asks every opposing
  piece for its moves, and a king that has not moved asks whether it is in check before it
  looks at castling. The first argument bounds the nesting depth of attack queries; every
  other call keeps it. A recursion that exceeds every bound is one that the source never
  leaves by a return (a JavaScript engine ends it with a stack overflow error, at a depth
  the program does not fix).
\<close>

function isPositionUnderAttack :: "nat \<Rightarrow> heap \<Rightarrow> Board \<Rightarrow> Position \<Rightarrow> Color \<Rightarrow> bool outcome"
  and isInCheck :: "nat \<Rightarrow> heap \<Rightarrow> Board \<Rightarrow> Color \<Rightarrow> bool outcome"
  and canCastleThrough :: "nat \<Rightarrow> heap \<Rightarrow> Board \<Rightarrow> Piece \<Rightarrow> Position list \<Rightarrow> bool outcome"
  and getCastlingMoves :: "nat \<Rightarrow> heap \<Rightarrow> Board \<Rightarrow> Piece \<Rightarrow> Position \<Rightarrow> Move list outcome"
  and King_getPossibleMoves :: "nat \<Rightarrow> heap \<Rightarrow> Board \<Rightarrow> Piece \<Rightarrow> Position \<Rightarrow> Move list outcome"
  and getPossibleMoves :: "nat \<Rightarrow> heap \<Rightarrow> Board \<Rightarrow> Piece \<Rightarrow> Position \<Rightarrow> Move list outcome"
where
  "isPositionUnderAttack 0 h b position byColor = OutOfFuel"
| "isPositionUnderAttack (Suc n) h b position byColor =
     someM (\<lambda>sq.
        case getPiece b sq of
          None \<Rightarrow> Return False
        | Some r \<Rightarrow>
            if color (h ! r) = opponent byColor then
              andThen (getPossibleMoves n h b (h ! r) sq) (\<lambda>possibleMoves.
                Return (list_ex (\<lambda>m. toPos m = position) possibleMoves))
            else Return False) allSquares"
| "isInCheck n h b c =
     (case findKing h b c of
        None \<Rightarrow> Return False
      | Some kingPos \<Rightarrow> isPositionUnderAttack n h b kingPos c)"
| "canCastleThrough n h b p positions =
     everyM (\<lambda>pos.
        if getPiece b pos \<noteq> None then Return False
        else andThen (isPositionUnderAttack n h b pos (color p)) (\<lambda>a. Return (\<not> a)))
       positions"
| "getCastlingMoves n h b p cur =
     (let r = row cur in
      andThen
        (case getPiece b (Position r 7) of
           None \<Rightarrow> Return []
         | Some k \<Rightarrow>
             if pieceType (h ! k) = ROOK \<and> \<not> hasMoved (h ! k) then
               andThen (canCastleThrough n h b p [cur, Position r 6, Position r 5]) (\<lambda>ok.
                 Return (if ok then [Move cur (Position r 6) None True False] else []))
             else Return [])
        (\<lambda>kingside.
           andThen
             (case getPiece b (Position r 0) of
                None \<Rightarrow> Return []
              | Some q \<Rightarrow>
                  if pieceType (h ! q) = ROOK \<and> \<not> hasMoved (h ! q) then
                    andThen
                      (canCastleThrough n h b p [cur, Position r 2, Position r 3, Position r 1])
                      (\<lambda>ok. Return (if ok then [Move cur (Position r 2) None True False] else []))
                  else Return [])
             (\<lambda>queenside. Return (kingside @ queenside))))"
| "King_getPossibleMoves n h b p cur =
     (let moves = kingAdjacent h b p cur in
      if \<not> hasMoved p then
        andThen (isInCheck n h b (color p)) (\<lambda>inCheck.
          if \<not> inCheck then
            andThen (getCastlingMoves n h b p cur) (\<lambda>castling. Return (moves @ castling))
          else Return moves)
      else Return moves)"
| "getPossibleMoves n h b p cur =
     (case pieceType p of
        PAWN \<Rightarrow> Pawn_getPossibleMoves h b p cur
      | ROOK \<Rightarrow> Return (Rook_getPossibleMoves h b p cur)
      | KNIGHT \<Rightarrow> Return (Knight_getPossibleMoves h b p cur)
      | BISHOP \<Rightarrow> Return (Bishop_getPossibleMoves h b p cur)
      | QUEEN \<Rightarrow> Return (Queen_getPossibleMoves h b p cur)
      | KING \<Rightarrow> King_getPossibleMoves n h b p cur)"
  by pat_completeness auto
termination
  by (relation "measure (\<lambda>x. case x of
        Inl (Inl (n, _)) \<Rightarrow> 6 * n
      | Inl (Inr (Inl (n, _))) \<Rightarrow> 6 * n + 1
      | Inl (Inr (Inr (n, _))) \<Rightarrow> 6 * n + 1
      | Inr (Inl (n, _)) \<Rightarrow> 6 * n + 2
      | Inr (Inr (Inl (n, _))) \<Rightarrow> 6 * n + 3
      | Inr (Inr (Inr (n, _))) \<Rightarrow> 6 * n + 4)") auto

text \<open>
  An attack query is stable at a budget when, once it has returned or thrown there, one
  more level of budget gives the same outcome.
\<close>

definition attackStable :: "nat \<Rightarrow> heap \<Rightarrow> Board \<Rightarrow> bool" where
  "attackStable n h b \<longleftrightarrow>
     (\<forall>pos c. isPositionUnderAttack n h b pos c \<noteq> OutOfFuel \<longrightarrow>
        isPositionUnderAttack (Suc n) h b pos c = isPositionUnderAttack n h b pos c)"

section \<open>The board\<close>

definition emptyBoard :: Board where
  "emptyBoard =
     \<lparr>grid = replicate 8 (replicate 8 None), moveHistory = [], capturedPieces = [],
      enPassantTarget = None, halfMoveClock = 0, fullMoveNumber = 1\<rparr>"

definition pieceOrder :: "PieceType list" where
  "pieceOrder = [ROOK, KNIGHT, BISHOP, QUEEN, KING, BISHOP, KNIGHT, ROOK]"

definition placePawns :: "int \<Rightarrow> heap \<times> Board \<Rightarrow> heap \<times> Board" where
  "placePawns c s =
     (let (h, b) = s;
          (r1, h1) = createPiece PAWN BLACK h;
          b1 = setPiece b (Position 1 c) (Some r1);
          (r2, h2) = createPiece PAWN WHITE h1;
          b2 = setPiece b1 (Position 6 c) (Some r2)
      in (h2, b2))"

definition placeOfficers :: "PieceType \<times> int \<Rightarrow> heap \<times> Board \<Rightarrow> heap \<times> Board" where
  "placeOfficers tc s =
     (let (h, b) = s;
          (r1, h1) = createPiece (fst tc) BLACK h;
          b1 = setPiece b (Position 0 (snd tc)) (Some r1);
          (r2, h2) = createPiece (fst tc) WHITE h1;
          b2 = setPiece b1 (Position 7 (snd tc)) (Some r2)
      in (h2, b2))"

definition initializeBoard :: "heap \<times> Board \<Rightarrow> heap \<times> Board" where
  "initializeBoard s = fold placeOfficers (zip pieceOrder indices) (fold placePawns indices s)"

text \<open>\<^verbatim>\<open>new Board()\<close>: thirty-two new piece objects and a grid that refers to them.\<close>

definition newBoard :: "heap \<Rightarrow> heap \<times> Board" where
  "newBoard h = initializeBoard (h, emptyBoard)"

text \<open>
  \<^verbatim>\<open>Board.deepCopy\<close> builds a new board and then overwrites its fields: the rows of the
  grid and the two lists are copied, the cells of the copied rows are the same piece
  references as in the original.
\<close>

definition deepCopy :: "heap \<Rightarrow> Board \<Rightarrow> heap \<times> Board" where
  "deepCopy h b =
     (let (h', copy) = newBoard h in
      (h', copy\<lparr>grid := map (\<lambda>r. r) (grid b),
                moveHistory := moveHistory b,
                capturedPieces := capturedPieces b,
                enPassantTarget := enPassantTarget b,
                halfMoveClock := halfMoveClock b,
                fullMoveNumber := fullMoveNumber b\<rparr>))"

definition executeCastling :: "heap \<Rightarrow> Board \<Rightarrow> Move \<Rightarrow> (unit, heap \<times> Board) effect" where
  "executeCastling h b move =
     (case getPiece b (fromPos move) of
        None \<Rightarrow> Throws NoKingForCastling (h, b)
      | Some king \<Rightarrow>
          (let r = row (fromPos move);
               b1 = setPiece b (toPos move) (Some king);
               b2 = setPiece b1 (fromPos move) None;
               h1 = markAsMoved h king in
           if col (toPos move) = 6 then
             (case getPiece b2 (Position r 7) of
                None \<Rightarrow> Throws NoRookForCastling (h1, b2)
              | Some rook \<Rightarrow>
                  Returns ()
                    (markAsMoved h1 rook,
                     setPiece (setPiece b2 (Position r 5) (Some rook)) (Position r 7) None))
           else
             (case getPiece b2 (Position r 0) of
                None \<Rightarrow> Throws NoRookForCastling (h1, b2)
              | Some rook \<Rightarrow>
                  Returns ()
                    (markAsMoved h1 rook,
                     setPiece (setPiece b2 (Position r 3) (Some rook)) (Position r 0) None))))"

definition executeEnPassant :: "heap \<Rightarrow> Board \<Rightarrow> Move \<Rightarrow> (unit, heap \<times> Board) effect" where
  "executeEnPassant h b move =
     (case getPiece b (fromPos move) of
        None \<Rightarrow> Throws NoPawnForEnPassant (h, b)
      | Some pawn \<Rightarrow>
          (let b1 = setPiece b (toPos move) (Some pawn);
               b2 = setPiece b1 (fromPos move) None;
               h1 = markAsMoved h pawn;
               capturedPawnPos = Position (row (fromPos move)) (col (toPos move));
               b3 = (case getPiece b2 capturedPawnPos of
                       None \<Rightarrow> b2
                     | Some capturedPawn \<Rightarrow>
                         b2\<lparr>capturedPieces := capturedPieces b2 @ [capturedPawn]\<rparr>)
           in Returns () (h1, setPiece b3 capturedPawnPos None)))"

definition updateEnPassantTarget :: "heap \<Rightarrow> Board \<Rightarrow> Move \<Rightarrow> Board" where
  "updateEnPassantTarget h b move =
     (case getPiece b (toPos move) of
        None \<Rightarrow> b\<lparr>enPassantTarget := None\<rparr>
      | Some r \<Rightarrow>
          if pieceType (h ! r) = PAWN \<and> \<bar>row (fromPos move) - row (toPos move)\<bar> = 2
          then b\<lparr>enPassantTarget :=
                   Some (Position ((row (fromPos move) + row (toPos move)) div 2)
                                  (col (toPos move)))\<rparr>
          else b\<lparr>enPassantTarget := None\<rparr>)"

text \<open>
  The en-passant target is private to the board and written by \<^verbatim>\<open>updateEnPassantTarget\<close>
  only. The targets that it writes are squares skipped by a two-row move, so they lie on
  rows 1 to 6.
\<close>

definition enPassantTargetInside :: "Board \<Rightarrow> bool" where
  "enPassantTargetInside b =
     (case enPassantTarget b of None \<Rightarrow> True | Some t \<Rightarrow> 1 \<le> row t \<and> row t \<le> 6)"

definition updateMoveCounters :: "heap \<Rightarrow> Board \<Rightarrow> Move \<Rightarrow> ref option \<Rightarrow> Board" where
  "updateMoveCounters h b move capturedPiece =
     (case getPiece b (toPos move) of
        None \<Rightarrow> b
      | Some r \<Rightarrow>
          (let b1 = (if pieceType (h ! r) = PAWN \<or> capturedPiece \<noteq> None
                     then b\<lparr>halfMoveClock := 0\<rparr>
                     else b\<lparr>halfMoveClock := halfMoveClock b + 1\<rparr>)
           in if color (h ! r) = BLACK
              then b1\<lparr>fullMoveNumber := fullMoveNumber b1 + 1\<rparr>
              else b1))"

text \<open>The bookkeeping at the end of \<^verbatim>\<open>executeMove\<close>.\<close>

definition recordMove :: "heap \<Rightarrow> Board \<Rightarrow> Move \<Rightarrow> ref option \<Rightarrow> Board" where
  "recordMove h b move capturedPiece =
     (let b1 = (case capturedPiece of
                  None \<Rightarrow> b
                | Some c \<Rightarrow> b\<lparr>capturedPieces := capturedPieces b @ [c]\<rparr>);
          b2 = b1\<lparr>moveHistory := moveHistory b1 @ [move]\<rparr>;
          b3 = updateEnPassantTarget h b2 move
      in updateMoveCounters h b3 move capturedPiece)"

definition executeMove :: "heap \<Rightarrow> Board \<Rightarrow> Move \<Rightarrow> (unit, heap \<times> Board) effect" where
  "executeMove h b move =
     (let capturedPiece = getPiece b (toPos move) in
      case getPiece b (fromPos move) of
        None \<Rightarrow> Throws NoPieceAtSource (h, b)
      | Some piece \<Rightarrow>
          (case
             (if isCastling move then executeCastling h b move
              else if isEnPassant move then executeEnPassant h b move
              else
                (case promotionPiece move of
                   Some t \<Rightarrow>
                     (let (promoted, h1) = createPiece t (color (h ! piece)) h;
                          b1 = setPiece b (toPos move) (Some promoted);
                          b2 = setPiece b1 (fromPos move) None
                      in Returns () (markAsMoved h1 promoted, b2))
                 | None \<Rightarrow>
                     (let b1 = setPiece b (toPos move) (Some piece);
                          b2 = setPiece b1 (fromPos move) None
                      in Returns () (markAsMoved h piece, b2))))
           of
             Diverges s \<Rightarrow> Diverges s
           | Throws e s \<Rightarrow> Throws e s
           | Returns u s \<Rightarrow> Returns () (fst s, recordMove (fst s) (snd s) move capturedPiece)))"

text \<open>
  \<^verbatim>\<open>wouldBeInCheckAfterMove\<close> runs the move on the copy. The copy is dropped afterwards;
  the store of piece objects, which the copy shares with the board, is what remains.
\<close>

definition wouldBeInCheckAfterMove ::
  "nat \<Rightarrow> heap \<Rightarrow> Board \<Rightarrow> Move \<Rightarrow> Color \<Rightarrow> (bool, heap) effect" where
  "wouldBeInCheckAfterMove n h b move c =
     (let (h0, boardCopy) = deepCopy h b in
      case executeMove h0 boardCopy move of
        Diverges s \<Rightarrow> Diverges (fst s)
      | Throws e s \<Rightarrow> Throws e (fst s)
      | Returns u s \<Rightarrow>
          (case isInCheck n (fst s) (snd s) c of
             OutOfFuel \<Rightarrow> Diverges (fst s)
           | Raise e \<Rightarrow> Throws e (fst s)
           | Return t \<Rightarrow> Returns t (fst s)))"

definition isMoveValid :: "nat \<Rightarrow> heap \<Rightarrow> Board \<Rightarrow> Piece \<Rightarrow> Move \<Rightarrow> bool outcome" where
  "isMoveValid n h b p move =
     andThen (getPossibleMoves n h b p (fromPos move)) (\<lambda>possibleMoves.
       Return (list_ex (\<lambda>m. m = move) possibleMoves))"

definition Board_makeMove :: "nat \<Rightarrow> heap \<Rightarrow> Board \<Rightarrow> Move \<Rightarrow> (bool, heap \<times> Board) effect" where
  "Board_makeMove n h b move =
     (case getPiece b (fromPos move) of
        None \<Rightarrow> Returns False (h, b)
      | Some piece \<Rightarrow>
          (case isMoveValid n h b (h ! piece) move of
             OutOfFuel \<Rightarrow> Diverges (h, b)
           | Raise e \<Rightarrow> Throws e (h, b)
           | Return valid \<Rightarrow>
               if \<not> valid then Returns False (h, b)
               else
                 (case wouldBeInCheckAfterMove n h b move (color (h ! piece)) of
                    Diverges h1 \<Rightarrow> Diverges (h1, b)
                  | Throws e h1 \<Rightarrow> Throws e (h1, b)
                  | Returns inCheck h1 \<Rightarrow>
                      if inCheck then Returns False (h1, b)
                      else
                        (case executeMove h1 b move of
                           Diverges s \<Rightarrow> Diverges s
                         | Throws e s \<Rightarrow> Throws e s
                         | Returns u s \<Rightarrow> Returns True s))))"

text \<open>
  \<^verbatim>\<open>getAllLegalMoves\<close>: the inner \<^verbatim>\<open>forEach\<close> over one piece's moves, and the scan over
  the squares. The store is threaded through, since every simulation may change it.
\<close>

fun filterLegal :: "nat \<Rightarrow> Board \<Rightarrow> Color \<Rightarrow> heap \<Rightarrow> Move list \<Rightarrow> (Move list, heap) effect" where
  "filterLegal n b c h [] = Returns [] h"
| "filterLegal n b c h (move # rest) =
     (case wouldBeInCheckAfterMove n h b move c of
        Diverges h1 \<Rightarrow> Diverges h1
      | Throws e h1 \<Rightarrow> Throws e h1
      | Returns inCheck h1 \<Rightarrow>
          (case filterLegal n b c h1 rest of
             Diverges h2 \<Rightarrow> Diverges h2
           | Throws e h2 \<Rightarrow> Throws e h2
           | Returns legal h2 \<Rightarrow> Returns (if inCheck then legal else move # legal) h2))"

fun scanLegal :: "nat \<Rightarrow> Board \<Rightarrow> Color \<Rightarrow> heap \<Rightarrow> Position list \<Rightarrow> (Move list, heap) effect" where
  "scanLegal n b c h [] = Returns [] h"
| "scanLegal n b c h (pos # rest) =
     (case getPiece b pos of
        None \<Rightarrow> scanLegal n b c h rest
      | Some r \<Rightarrow>
          if color (h ! r) = c then
            (case getPossibleMoves n h b (h ! r) pos of
               OutOfFuel \<Rightarrow> Diverges h
             | Raise e \<Rightarrow> Throws e h
             | Return possibleMoves \<Rightarrow>
                 (case filterLegal n b c h possibleMoves of
                    Diverges h1 \<Rightarrow> Diverges h1
                  | Throws e h1 \<Rightarrow> Throws e h1
                  | Returns legal h1 \<Rightarrow>
                      (case scanLegal n b c h1 rest of
                         Diverges h2 \<Rightarrow> Diverges h2
                       | Throws e h2 \<Rightarrow> Throws e h2
                       | Returns others h2 \<Rightarrow> Returns (legal @ others) h2)))
          else scanLegal n b c h rest)"

definition getAllLegalMoves :: "nat \<Rightarrow> heap \<Rightarrow> Board \<Rightarrow> Color \<Rightarrow> (Move list, heap) effect" where
  "getAllLegalMoves n h b c = scanLegal n b c h allSquares"

definition isCheckmate :: "nat \<Rightarrow> heap \<Rightarrow> Board \<Rightarrow> Color \<Rightarrow> (bool, heap) effect" where
  "isCheckmate n h b c =
     (case isInCheck n h b c of
        OutOfFuel \<Rightarrow> Diverges h
      | Raise e \<Rightarrow> Throws e h
      | Return inCheck \<Rightarrow>
          if inCheck then
            (case getAllLegalMoves n h b c of
               Diverges h1 \<Rightarrow> Diverges h1
             | Throws e h1 \<Rightarrow> Throws e h1
             | Returns legal h1 \<Rightarrow> Returns (length legal = 0) h1)
          else Returns False h)"

definition isStalemate :: "nat \<Rightarrow> heap \<Rightarrow> Board \<Rightarrow> Color \<Rightarrow> (bool, heap) effect" where
  "isStalemate n h b c =
     (case isInCheck n h b c of
        OutOfFuel \<Rightarrow> Diverges h
      | Raise e \<Rightarrow> Throws e h
      | Return inCheck \<Rightarrow>
          if \<not> inCheck then
            (case getAllLegalMoves n h b c of
               Diverges h1 \<Rightarrow> Diverges h1
             | Throws e h1 \<Rightarrow> Throws e h1
             | Returns legal h1 \<Rightarrow> Returns (length legal = 0) h1)
          else Returns False h)"

section \<open>The game controller\<close>

record ChessGame =
  board :: Board
  currentPlayer :: Color
  gameState :: GameState
  moveCount :: nat

definition newChessGame :: "heap \<Rightarrow> heap \<times> ChessGame" where
  "newChessGame h =
     (let (h', b) = newBoard h in
      (h', \<lparr>board = b, currentPlayer = WHITE, gameState = ONGOING, moveCount = 0\<rparr>))"

definition isDraw :: "ChessGame \<Rightarrow> bool" where
  "isDraw g \<longleftrightarrow> halfMoveClock (board g) \<ge> 100"

definition updateGameState :: "nat \<Rightarrow> heap \<Rightarrow> ChessGame \<Rightarrow> (unit, heap \<times> ChessGame) effect" where
  "updateGameState n h g =
     (case isCheckmate n h (board g) (currentPlayer g) of
        Diverges h1 \<Rightarrow> Diverges (h1, g)
      | Throws e h1 \<Rightarrow> Throws e (h1, g)
      | Returns mate h1 \<Rightarrow>
          if mate then Returns () (h1, g\<lparr>gameState := CHECKMATE\<rparr>)
          else
            (case isStalemate n h1 (board g) (currentPlayer g) of
               Diverges h2 \<Rightarrow> Diverges (h2, g)
             | Throws e h2 \<Rightarrow> Throws e (h2, g)
             | Returns stale h2 \<Rightarrow>
                 if stale then Returns () (h2, g\<lparr>gameState := STALEMATE\<rparr>)
                 else
                   (case isInCheck n h2 (board g) (currentPlayer g) of
                      OutOfFuel \<Rightarrow> Diverges (h2, g)
                    | Raise e \<Rightarrow> Throws e (h2, g)
                    | Return inCheck \<Rightarrow>
                        if inCheck then Returns () (h2, g\<lparr>gameState := CHECK\<rparr>)
                        else if isDraw g then Returns () (h2, g\<lparr>gameState := DRAW\<rparr>)
                        else Returns () (h2, g\<lparr>gameState := ONGOING\<rparr>))))"

definition ChessGame_makeMove ::
  "nat \<Rightarrow> heap \<Rightarrow> ChessGame \<Rightarrow> Move \<Rightarrow> (bool, heap \<times> ChessGame) effect" where
  "ChessGame_makeMove n h g move =
     (if gameState g \<noteq> ONGOING \<and> gameState g \<noteq> CHECK then Returns False (h, g)
      else
        (case getPiece (board g) (fromPos move) of
           None \<Rightarrow> Returns False (h, g)
         | Some piece \<Rightarrow>
             if color (h ! piece) \<noteq> currentPlayer g then Returns False (h, g)
             else
               (case Board_makeMove n h (board g) move of
                  Diverges s \<Rightarrow> Diverges (fst s, g\<lparr>board := snd s\<rparr>)
                | Throws e s \<Rightarrow> Throws e (fst s, g\<lparr>board := snd s\<rparr>)
                | Returns ok s \<Rightarrow>
                    if ok then
                      (case updateGameState n (fst s)
                              (g\<lparr>board := snd s,
                                 moveCount := moveCount g + 1,
                                 currentPlayer := opponent (currentPlayer g)\<rparr>) of
                         Diverges s' \<Rightarrow> Diverges s'
                       | Throws e s' \<Rightarrow> Throws e s'
                       | Returns u s' \<Rightarrow> Returns True s')
                    else Returns False (fst s, g\<lparr>board := snd s\<rparr>))))"

section \<open>Algebraic notation\<close>

text \<open>
  A JavaScript string is a list of UTF-16 code units. \<^verbatim>\<open>parseInt\<close> of a one-unit string
  is the digit's value, and \<^verbatim>\<open>NaN\<close> for every other unit; every comparison with
  \<^verbatim>\<open>NaN\<close> is false, so a \<^verbatim>\<open>NaN\<close> row passes the range test of the \<^verbatim>\<open>Position\<close>
  constructor. \<open>JsPosition\<close> is the \<^verbatim>\<open>Position\<close> object that notation parsing returns,
  whose row may be \<^verbatim>\<open>NaN\<close>.
\<close>

type_synonym jsstring = "nat list"

datatype jsnum = Num int | NaN

datatype JsPosition = JsPosition (jsRow: jsnum) (jsCol: int)

definition ascii :: "string \<Rightarrow> jsstring" where
  "ascii s = map of_char s"

definition parseIntUnit :: "nat \<Rightarrow> jsnum" where
  "parseIntUnit c = (if 48 \<le> c \<and> c \<le> 57 then Num (int c - 48) else NaN)"

definition jsMinus :: "int \<Rightarrow> jsnum \<Rightarrow> jsnum" where
  "jsMinus a x = (case x of Num v \<Rightarrow> Num (a - v) | NaN \<Rightarrow> NaN)"

definition jsLess :: "jsnum \<Rightarrow> int \<Rightarrow> bool" where
  "jsLess x a = (case x of Num v \<Rightarrow> v < a | NaN \<Rightarrow> False)"

definition jsGreater :: "jsnum \<Rightarrow> int \<Rightarrow> bool" where
  "jsGreater x a = (case x of Num v \<Rightarrow> v > a | NaN \<Rightarrow> False)"

definition newJsPosition :: "jsnum \<Rightarrow> int \<Rightarrow> JsPosition outcome" where
  "newJsPosition r c =
     (if jsLess r 0 \<or> jsGreater r 7 \<or> c < 0 \<or> c > 7 then Raise InvalidPosition
      else Return (JsPosition r c))"

definition fromAlgebraic :: "jsstring \<Rightarrow> JsPosition outcome" where
  "fromAlgebraic notation =
     (if length notation \<noteq> 2 then Raise InvalidNotation
      else
        (let c = int (notation ! 0) - 97;
             r = jsMinus 8 (parseIntUnit (notation ! 1))
         in newJsPosition r c))"

text \<open>
  \<^verbatim>\<open>toAlgebraic\<close> of a constructed position: \<^verbatim>\<open>8 - row\<close> is one of the digits 1 to 8.
\<close>

definition toAlgebraic :: "Position \<Rightarrow> jsstring" where
  "toAlgebraic p = [nat (97 + col p), nat (48 + (8 - row p))]"

definition toUpperCaseUnit :: "nat \<Rightarrow> nat" where
  "toUpperCaseUnit c = (if 97 \<le> c \<and> c \<le> 122 then c - 32 else c)"

definition parsePromotion :: "jsstring option \<Rightarrow> PieceType option" where
  "parsePromotion promotion =
     (case promotion of
        None \<Rightarrow> None
      | Some s \<Rightarrow>
          if s = [] then None
          else map_of [([81], QUEEN), ([82], ROOK), ([66], BISHOP), ([78], KNIGHT)]
                 (map toUpperCaseUnit s))"

text \<open>
  \<^verbatim>\<open>ChessGame.makeMove\<close> on the positions that notation parsing returned. With a
  \<^verbatim>\<open>NaN\<close> row in the source square, \<^verbatim>\<open>getPiece\<close> indexes \<^verbatim>\<open>undefined\<close> and throws a
  \<^verbatim>\<open>TypeError\<close>; with a \<^verbatim>\<open>NaN\<close> row in the destination only, no generated move equals
  the requested one.
\<close>

definition makeMoveParsed ::
  "nat \<Rightarrow> heap \<Rightarrow> ChessGame \<Rightarrow> JsPosition \<Rightarrow> JsPosition \<Rightarrow> PieceType option \<Rightarrow>
   (bool, heap \<times> ChessGame) effect" where
  "makeMoveParsed n h g fp tp promo =
     (case jsRow fp of
        NaN \<Rightarrow>
          if gameState g \<noteq> ONGOING \<and> gameState g \<noteq> CHECK then Returns False (h, g)
          else Throws TypeError (h, g)
      | Num rf \<Rightarrow>
          (case jsRow tp of
             Num rt \<Rightarrow>
               ChessGame_makeMove n h g
                 (Move (Position rf (jsCol fp)) (Position rt (jsCol tp)) promo False False)
           | NaN \<Rightarrow>
               if gameState g \<noteq> ONGOING \<and> gameState g \<noteq> CHECK then Returns False (h, g)
               else
                 (case getPiece (board g) (Position rf (jsCol fp)) of
                    None \<Rightarrow> Returns False (h, g)
                  | Some piece \<Rightarrow>
                      if color (h ! piece) \<noteq> currentPlayer g then Returns False (h, g)
                      else
                        (case getPossibleMoves n h (board g) (h ! piece)
                                (Position rf (jsCol fp)) of
                           OutOfFuel \<Rightarrow> Diverges (h, g)
                         | Raise e \<Rightarrow> Throws e (h, g)
                         | Return possibleMoves \<Rightarrow> Returns False (h, g)))))"

text \<open>
  The \<^verbatim>\<open>try\<close> block of \<^verbatim>\<open>makeMoveFromAlgebraic\<close>: every exception thrown below it,
  the stack overflow of a recursion that does not return included, becomes the result
  false, in the state that the exception left behind.
\<close>

definition makeMoveFromAlgebraic ::
  "nat \<Rightarrow> heap \<Rightarrow> ChessGame \<Rightarrow> jsstring \<Rightarrow> jsstring \<Rightarrow> jsstring option \<Rightarrow>
   (bool, heap \<times> ChessGame) effect" where
  "makeMoveFromAlgebraic n h g fromNotation toNotation promotion =
     (case fromAlgebraic fromNotation of
        OutOfFuel \<Rightarrow> Returns False (h, g)
      | Raise e \<Rightarrow> Returns False (h, g)
      | Return fp \<Rightarrow>
          (case fromAlgebraic toNotation of
             OutOfFuel \<Rightarrow> Returns False (h, g)
           | Raise e \<Rightarrow> Returns False (h, g)
           | Return tp \<Rightarrow>
               (case makeMoveParsed n h g fp tp (parsePromotion promotion) of
                  Diverges s \<Rightarrow> Returns False s
                | Throws e s \<Rightarrow> Returns False s
                | Returns ok s \<Rightarrow> Returns ok s)))"

section \<open>Positions used in the examples\<close>

text \<open>The standard initial position, as \<^verbatim>\<open>new Board()\<close> builds it in an empty store.\<close>

definition initialHeap :: heap where
  "initialHeap = fst (newBoard [])"

definition initialBoard :: Board where
  "initialBoard = snd (newBoard [])"

text \<open>The game that \<^verbatim>\<open>new ChessGame()\<close> builds in an empty store.\<close>

definition initialGame :: ChessGame where
  "initialGame = snd (newChessGame [])"

text \<open>
  A board set up square by square, as \<^verbatim>\<open>setPiece\<close> allows: the listed piece references on
  an otherwise empty board.
\<close>

definition placeAll :: "(Position \<times> ref) list \<Rightarrow> Board" where
  "placeAll ps = fold (\<lambda>pr b. setPiece b (fst pr) (Some (snd pr))) ps emptyBoard"

definition piece :: "Color \<Rightarrow> PieceType \<Rightarrow> bool \<Rightarrow> Piece" where
  "piece c t m = \<lparr>color = c, pieceType = t, hasMoved = m\<rparr>"

text \<open>
  White king on e1 and white rook on h1, neither moved, f1 and g1 empty and unattacked;
  the black king, on e8, has moved.
\<close>

definition castlingReady :: "heap \<times> Board" where
  "castlingReady =
     ([piece WHITE KING False, piece WHITE ROOK False, piece BLACK KING True],
      placeAll [(Position 7 4, 0), (Position 7 7, 1), (Position 0 4, 2)])"

definition gameCastlingReady :: ChessGame where
  "gameCastlingReady =
     \<lparr>board = snd castlingReady, currentPlayer = WHITE, gameState = ONGOING, moveCount = 0\<rparr>"

text \<open>White king h1 and black king a8, both moved, and an unmoved white pawn on a2.\<close>

definition pawnAndKings :: "heap \<times> Board" where
  "pawnAndKings =
     ([piece WHITE KING True, piece BLACK KING True, piece WHITE PAWN False],
      placeAll [(Position 7 7, 0), (Position 0 0, 1), (Position 6 0, 2)])"

text \<open>
  White king e1, an unmoved white rook on e2 pinned by the black rook on e8; black king a8.
\<close>

definition pinnedRook :: "heap \<times> Board" where
  "pinnedRook =
     ([piece WHITE KING True, piece BLACK KING True, piece WHITE ROOK False,
       piece BLACK ROOK True],
      placeAll [(Position 7 4, 0), (Position 0 0, 1), (Position 6 4, 2), (Position 0 4, 3)])"

text \<open>
  White king e1 and black king e8, both moved, and a white pawn on a6 that has not moved.
\<close>

definition earlyPawn :: "heap \<times> Board" where
  "earlyPawn =
     ([piece WHITE KING True, piece BLACK KING True, piece WHITE PAWN False],
      placeAll [(Position 7 4, 0), (Position 0 4, 1), (Position 2 0, 2)])"

text \<open>The same kings, a white pawn on a7 that has moved, and a black rook on b8.\<close>

definition promotingPawn :: "heap \<times> Board" where
  "promotingPawn =
     ([piece WHITE KING True, piece BLACK KING True, piece WHITE PAWN True,
       piece BLACK ROOK True],
      placeAll [(Position 7 4, 0), (Position 0 4, 1), (Position 1 0, 2), (Position 0 1, 3)])"

text \<open>
  The same kings, a white pawn on e5 and an unmoved black pawn on d7; and the position after
  Black's d7 to d5.
\<close>

definition beforeDoublePush :: "heap \<times> Board" where
  "beforeDoublePush =
     ([piece WHITE KING True, piece BLACK KING True, piece WHITE PAWN True,
       piece BLACK PAWN False],
      placeAll [(Position 7 4, 0), (Position 0 4, 1), (Position 3 4, 2), (Position 1 3, 3)])"

definition afterDoublePush :: "heap \<times> Board" where
  "afterDoublePush =
     ([piece WHITE KING True, piece BLACK KING True, piece WHITE PAWN True,
       piece BLACK PAWN True],
      (placeAll [(Position 7 4, 0), (Position 0 4, 1), (Position 3 4, 2), (Position 3 3, 3)])
        \<lparr>moveHistory := [Move (Position 1 3) (Position 3 3) None False False],
         enPassantTarget := Some (Position 2 3),
         fullMoveNumber := 2\<rparr>)"


text \<open>
  The game in which Black has just played d7 to d5, and the position and the game after
  White's reply e5 to e6.
\<close>

definition gameAfterDoublePush :: ChessGame where
  "gameAfterDoublePush =
     \<lparr>board = snd afterDoublePush, currentPlayer = WHITE, gameState = ONGOING, moveCount = 1\<rparr>"

definition afterAdvance :: "heap \<times> Board" where
  "afterAdvance =
     (fst afterDoublePush,
      (placeAll [(Position 7 4, 0), (Position 0 4, 1), (Position 2 4, 2), (Position 3 3, 3)])
        \<lparr>moveHistory := [Move (Position 1 3) (Position 3 3) None False False,
                         Move (Position 3 4) (Position 2 4) None False False],
         fullMoveNumber := 2\<rparr>)"

definition gameAfterAdvance :: ChessGame where
  "gameAfterAdvance =
     \<lparr>board = snd afterAdvance, currentPlayer = BLACK, gameState = ONGOING, moveCount = 2\<rparr>"

section \<open>Evaluation rules\<close>

declare isInCheck.simps [simp del] canCastleThrough.simps [simp del]
  getCastlingMoves.simps [simp del] King_getPossibleMoves.simps [simp del]
  getPossibleMoves.simps [simp del]

lemma list_update_numeral:
  "(x # xs)[numeral k := y] = x # xs[pred_numeral k := y]"
  by (simp add: numeral_eq_Suc)

lemma isPositionUnderAttack_numeral:
  "isPositionUnderAttack (numeral k) h b pos c =
   isPositionUnderAttack (Suc (pred_numeral k)) h b pos c"
  by (simp add: numeral_eq_Suc)

lemma emptyBoard_eq:
  "emptyBoard =
     \<lparr>grid =
        [[None, None, None, None, None, None, None, None],
         [None, None, None, None, None, None, None, None],
         [None, None, None, None, None, None, None, None],
         [None, None, None, None, None, None, None, None],
         [None, None, None, None, None, None, None, None],
         [None, None, None, None, None, None, None, None],
         [None, None, None, None, None, None, None, None],
         [None, None, None, None, None, None, None, None]],
      moveHistory = [], capturedPieces = [], enPassantTarget = None,
      halfMoveClock = 0, fullMoveNumber = 1\<rparr>"
  by (simp add: emptyBoard_def numeral_eq_Suc)

lemmas notation_defs = fromAlgebraic_def newJsPosition_def jsLess_def jsGreater_def jsMinus_def
  parseIntUnit_def toAlgebraic_def ascii_def

lemmas movegen_defs = allSquares_def indices_def getPiece_def opponent_def andThen_def
  findKing_def Pawn_getPossibleMoves_def pawnForward_def pawnCapture_def pawnDirection_def
  canEnPassant_def newPosition_def promotionPieces_def slide_def Rook_getPossibleMoves_def
  Bishop_getPossibleMoves_def Queen_getPossibleMoves_def Knight_getPossibleMoves_def
  kingAdjacent_def leap_def Let_def

lemmas attack_simps = isPositionUnderAttack.simps isInCheck.simps canCastleThrough.simps
  getCastlingMoves.simps King_getPossibleMoves.simps getPossibleMoves.simps
  isPositionUnderAttack_numeral

lemmas place_defs = placeAll_def emptyBoard_eq setPiece_def piece_def list_update_numeral

lemma newBoard_Nil:
  "newBoard [] =
     ([piece BLACK PAWN False, piece WHITE PAWN False, piece BLACK PAWN False,
       piece WHITE PAWN False, piece BLACK PAWN False, piece WHITE PAWN False,
       piece BLACK PAWN False, piece WHITE PAWN False, piece BLACK PAWN False,
       piece WHITE PAWN False, piece BLACK PAWN False, piece WHITE PAWN False,
       piece BLACK PAWN False, piece WHITE PAWN False, piece BLACK PAWN False,
       piece WHITE PAWN False, piece BLACK ROOK False, piece WHITE ROOK False,
       piece BLACK KNIGHT False, piece WHITE KNIGHT False, piece BLACK BISHOP False,
       piece WHITE BISHOP False, piece BLACK QUEEN False, piece WHITE QUEEN False,
       piece BLACK KING False, piece WHITE KING False, piece BLACK BISHOP False,
       piece WHITE BISHOP False, piece BLACK KNIGHT False, piece WHITE KNIGHT False,
       piece BLACK ROOK False, piece WHITE ROOK False],
      \<lparr>grid =
         [[Some 16, Some 18, Some 20, Some 22, Some 24, Some 26, Some 28, Some 30],
          [Some 0, Some 2, Some 4, Some 6, Some 8, Some 10, Some 12, Some 14],
          [None, None, None, None, None, None, None, None],
          [None, None, None, None, None, None, None, None],
          [None, None, None, None, None, None, None, None],
          [None, None, None, None, None, None, None, None],
          [Some 1, Some 3, Some 5, Some 7, Some 9, Some 11, Some 13, Some 15],
          [Some 17, Some 19, Some 21, Some 23, Some 25, Some 27, Some 29, Some 31]],
       moveHistory = [], capturedPieces = [], enPassantTarget = None,
       halfMoveClock = 0, fullMoveNumber = 1\<rparr>)"
  by (simp add: newBoard_def initializeBoard_def emptyBoard_def indices_def pieceOrder_def
      placePawns_def placeOfficers_def createPiece_def setPiece_def piece_def numeral_eq_Suc)

lemmas initial_eqs = initialHeap_def initialBoard_def newBoard_Nil fst_conv snd_conv piece_def

lemma initialGame_eq:
  "initialGame =
     \<lparr>board = initialBoard, currentPlayer = WHITE, gameState = ONGOING, moveCount = 0\<rparr>"
  by (simp add: initialGame_def newChessGame_def initialBoard_def split_beta)

text \<open>
  Building a board in a store \<open>h\<close> appends the thirty-two new pieces to it, so the copy made
  for a simulation is the board's own record over the enlarged store.
\<close>

lemma newBoard_heap: "fst (newBoard h) = h @ initialHeap"
  unfolding initial_eqs
  by (simp add: newBoard_def initializeBoard_def indices_def pieceOrder_def
      placePawns_def placeOfficers_def createPiece_def split_beta)

lemma deepCopy_eq: "deepCopy h b = (h @ initialHeap, b)"
  by (simp add: deepCopy_def split_beta newBoard_heap)

lemmas exec_defs = executeMove_def executeCastling_def executeEnPassant_def recordMove_def
  updateEnPassantTarget_def updateMoveCounters_def markAsMoved_def wouldBeInCheckAfterMove_def
  deepCopy_eq getAllLegalMoves_def isMoveValid_def Board_makeMove_def

lemmas game_defs = ChessGame_makeMove_def updateGameState_def isCheckmate_def isStalemate_def
  isDraw_def makeMoveParsed_def makeMoveFromAlgebraic_def parsePromotion_def

section \<open>The recursion budget\<close>

text \<open>
  The budget only cuts a computation off: an attack query, a check test or a move
  generation that has returned or thrown within a budget gives the same outcome at every
  larger one. So an outcome \<open>OutOfFuel\<close> at every budget means that the source call does
  not return.
\<close>

lemma someM_cong_returning:
  assumes "\<And>x. x \<in> set xs \<Longrightarrow> f x \<noteq> OutOfFuel \<Longrightarrow> g x = f x"
    and "someM f xs \<noteq> OutOfFuel"
  shows "someM g xs = someM f xs"
  using assms
  by (induction xs) (auto split: outcome.splits if_splits)

lemma everyM_cong_returning:
  assumes "\<And>x. x \<in> set xs \<Longrightarrow> f x \<noteq> OutOfFuel \<Longrightarrow> g x = f x"
    and "everyM f xs \<noteq> OutOfFuel"
  shows "everyM g xs = everyM f xs"
  using assms
  by (induction xs) (auto split: outcome.splits if_splits)

lemma andThen_returning:
  "andThen m f \<noteq> OutOfFuel \<Longrightarrow> m \<noteq> OutOfFuel"
  by (auto simp: andThen_def)

lemma attackStableD:
  "attackStable n h b \<Longrightarrow> isPositionUnderAttack n h b pos c \<noteq> OutOfFuel \<Longrightarrow>
   isPositionUnderAttack (Suc n) h b pos c = isPositionUnderAttack n h b pos c"
  unfolding attackStable_def by blast

lemma isInCheck_stable:
  assumes "attackStable n h b" and "isInCheck n h b c \<noteq> OutOfFuel"
  shows "isInCheck (Suc n) h b c = isInCheck n h b c"
proof (cases "findKing h b c")
  case None
  then show ?thesis by (simp add: isInCheck.simps)
next
  case (Some kp)
  with assms(2) have "isPositionUnderAttack n h b kp c \<noteq> OutOfFuel"
    by (simp add: isInCheck.simps)
  from attackStableD [OF assms(1) this] Some show ?thesis
    by (simp add: isInCheck.simps del: isPositionUnderAttack.simps)
qed

lemma canCastleThrough_stable:
  assumes st: "attackStable n h b" and ret: "canCastleThrough n h b p ps \<noteq> OutOfFuel"
  shows "canCastleThrough (Suc n) h b p ps = canCastleThrough n h b p ps"
  unfolding canCastleThrough.simps
proof (rule everyM_cong_returning)
  show "everyM (\<lambda>pos. if getPiece b pos \<noteq> None then Return False
          else andThen (isPositionUnderAttack n h b pos (color p)) (\<lambda>a. Return (\<not> a))) ps
        \<noteq> OutOfFuel"
    using ret by (simp add: canCastleThrough.simps)
next
  fix x
  assume a: "(if getPiece b x \<noteq> None then Return False
           else andThen (isPositionUnderAttack n h b x (color p)) (\<lambda>a. Return (\<not> a)))
          \<noteq> OutOfFuel"
  show "(if getPiece b x \<noteq> None then Return False
              else andThen (isPositionUnderAttack (Suc n) h b x (color p)) (\<lambda>a. Return (\<not> a))) =
             (if getPiece b x \<noteq> None then Return False
              else andThen (isPositionUnderAttack n h b x (color p)) (\<lambda>a. Return (\<not> a)))"
  proof (cases "getPiece b x \<noteq> None")
    case True
    then show ?thesis by (simp del: isPositionUnderAttack.simps)
  next
    case False
    with a have "isPositionUnderAttack n h b x (color p) \<noteq> OutOfFuel"
      by (auto simp: andThen_def simp del: isPositionUnderAttack.simps)
    from attackStableD [OF st this] show ?thesis
      by (simp del: isPositionUnderAttack.simps)
  qed
qed


lemma andThen_stable:
  assumes "m \<noteq> OutOfFuel \<Longrightarrow> m' = m"
    and "\<And>x. m = Return x \<Longrightarrow> f x \<noteq> OutOfFuel \<Longrightarrow> f' x = f x"
    and "andThen m f \<noteq> OutOfFuel"
  shows "andThen m' f' = andThen m f"
  using assms by (cases m) (auto simp: andThen_def)

lemma castlingWing_stable:
  assumes st: "attackStable n h b"
    and ret: "(case getPiece b rookPos of
                 None \<Rightarrow> Return []
               | Some k \<Rightarrow>
                   if pieceType (h ! k) = ROOK \<and> \<not> hasMoved (h ! k) then
                     andThen (canCastleThrough n h b p ps) f
                   else Return []) \<noteq> OutOfFuel"
  shows "(case getPiece b rookPos of
            None \<Rightarrow> Return []
          | Some k \<Rightarrow>
              if pieceType (h ! k) = ROOK \<and> \<not> hasMoved (h ! k) then
                andThen (canCastleThrough (Suc n) h b p ps) f
              else Return []) =
         (case getPiece b rookPos of
            None \<Rightarrow> Return []
          | Some k \<Rightarrow>
              if pieceType (h ! k) = ROOK \<and> \<not> hasMoved (h ! k) then
                andThen (canCastleThrough n h b p ps) f
              else Return [])"
proof (cases "getPiece b rookPos")
  case None
  then show ?thesis by simp
next
  case (Some k)
  show ?thesis
  proof (cases "pieceType (h ! k) = ROOK \<and> \<not> hasMoved (h ! k)")
    case False
    with Some show ?thesis by auto
  next
    case True
    with Some ret have "andThen (canCastleThrough n h b p ps) f \<noteq> OutOfFuel" by simp
    then have "andThen (canCastleThrough (Suc n) h b p ps) f =
               andThen (canCastleThrough n h b p ps) f"
      by (rule andThen_stable [rotated 2]) (simp_all add: canCastleThrough_stable [OF st])
    with Some True show ?thesis by simp
  qed
qed

lemma getCastlingMoves_stable:
  assumes st: "attackStable n h b" and ret: "getCastlingMoves n h b p cur \<noteq> OutOfFuel"
  shows "getCastlingMoves (Suc n) h b p cur = getCastlingMoves n h b p cur"
proof -
  define wing where "wing i rookPos ps mv =
      (case getPiece b rookPos of
         None \<Rightarrow> Return []
       | Some k \<Rightarrow>
           if pieceType (h ! k) = ROOK \<and> \<not> hasMoved (h ! k) then
             andThen (canCastleThrough i h b p ps) (\<lambda>ok. Return (if ok then [mv] else []))
           else Return [])" for i rookPos ps and mv :: Move
  have wing_stable: "wing (Suc n) rookPos ps mv = wing n rookPos ps mv"
    if "wing n rookPos ps mv \<noteq> OutOfFuel" for rookPos ps mv
    using that unfolding wing_def by (rule castlingWing_stable [OF st])
  have shape: "getCastlingMoves i h b p cur =
      andThen
        (wing i (Position (row cur) 7) [cur, Position (row cur) 6, Position (row cur) 5]
           (Move cur (Position (row cur) 6) None True False))
        (\<lambda>kingside.
           andThen
             (wing i (Position (row cur) 0)
                [cur, Position (row cur) 2, Position (row cur) 3, Position (row cur) 1]
                (Move cur (Position (row cur) 2) None True False))
             (\<lambda>queenside. Return (kingside @ queenside)))" for i
    by (simp add: getCastlingMoves.simps Let_def wing_def)
  show ?thesis
    unfolding shape
  proof (rule andThen_stable)
    show "andThen
        (wing n (Position (row cur) 7) [cur, Position (row cur) 6, Position (row cur) 5]
           (Move cur (Position (row cur) 6) None True False))
        (\<lambda>kingside.
           andThen
             (wing n (Position (row cur) 0)
                [cur, Position (row cur) 2, Position (row cur) 3, Position (row cur) 1]
                (Move cur (Position (row cur) 2) None True False))
             (\<lambda>queenside. Return (kingside @ queenside))) \<noteq> OutOfFuel"
      using ret by (simp add: shape)
  next
    fix kingside :: "Move list"
    assume "andThen
             (wing n (Position (row cur) 0)
                [cur, Position (row cur) 2, Position (row cur) 3, Position (row cur) 1]
                (Move cur (Position (row cur) 2) None True False))
             (\<lambda>queenside. Return (kingside @ queenside)) \<noteq> OutOfFuel"
    then have "wing n (Position (row cur) 0)
                [cur, Position (row cur) 2, Position (row cur) 3, Position (row cur) 1]
                (Move cur (Position (row cur) 2) None True False) \<noteq> OutOfFuel"
      by (rule andThen_returning)
    then show "andThen
             (wing (Suc n) (Position (row cur) 0)
                [cur, Position (row cur) 2, Position (row cur) 3, Position (row cur) 1]
                (Move cur (Position (row cur) 2) None True False))
             (\<lambda>queenside. Return (kingside @ queenside)) =
          andThen
             (wing n (Position (row cur) 0)
                [cur, Position (row cur) 2, Position (row cur) 3, Position (row cur) 1]
                (Move cur (Position (row cur) 2) None True False))
             (\<lambda>queenside. Return (kingside @ queenside))"
      by (simp add: wing_stable)
  qed (rule wing_stable)
qed

lemma King_getPossibleMoves_stable:
  assumes st: "attackStable n h b" and ret: "King_getPossibleMoves n h b p cur \<noteq> OutOfFuel"
  shows "King_getPossibleMoves (Suc n) h b p cur = King_getPossibleMoves n h b p cur"
proof (cases "hasMoved p")
  case True
  then show ?thesis by (simp add: King_getPossibleMoves.simps Let_def)
next
  case False
  with ret have chk: "isInCheck n h b (color p) \<noteq> OutOfFuel"
    by (auto simp: King_getPossibleMoves.simps Let_def andThen_def)
  note same = isInCheck_stable [OF st chk]
  show ?thesis
  proof (cases "isInCheck n h b (color p)")
    case OutOfFuel
    with chk show ?thesis by simp
  next
    case (Raise e)
    with False same show ?thesis
      by (simp add: King_getPossibleMoves.simps Let_def andThen_def)
  next
    case (Return inCheck)
    show ?thesis
    proof (cases inCheck)
      case True
      with Return False same show ?thesis
        by (simp add: King_getPossibleMoves.simps Let_def andThen_def)
    next
      case notInCheck: False
      with Return False ret have "getCastlingMoves n h b p cur \<noteq> OutOfFuel"
        by (auto simp: King_getPossibleMoves.simps Let_def andThen_def)
      from getCastlingMoves_stable [OF st this] Return False same notInCheck show ?thesis
        by (simp add: King_getPossibleMoves.simps Let_def andThen_def)
    qed
  qed
qed

lemma getPossibleMoves_stable:
  assumes "attackStable n h b" and "getPossibleMoves n h b p cur \<noteq> OutOfFuel"
  shows "getPossibleMoves (Suc n) h b p cur = getPossibleMoves n h b p cur"
  using assms King_getPossibleMoves_stable [OF assms(1), of p cur]
  by (cases "pieceType p") (simp_all add: getPossibleMoves.simps)

lemma attackStable_Suc:
  assumes "attackStable n h b"
  shows "attackStable (Suc n) h b"
  unfolding attackStable_def
proof (intro allI impI)
  fix pos c
  assume ret: "isPositionUnderAttack (Suc n) h b pos c \<noteq> OutOfFuel"
  show "isPositionUnderAttack (Suc (Suc n)) h b pos c = isPositionUnderAttack (Suc n) h b pos c"
    unfolding isPositionUnderAttack.simps
  proof (rule someM_cong_returning)
    show "someM (\<lambda>sq. case getPiece b sq of
                  None \<Rightarrow> Return False
                | Some r \<Rightarrow>
                    if color (h ! r) = opponent c then
                      andThen (getPossibleMoves n h b (h ! r) sq) (\<lambda>possibleMoves.
                        Return (list_ex (\<lambda>m. toPos m = pos) possibleMoves))
                    else Return False) allSquares \<noteq> OutOfFuel"
      using ret by simp
  next
    fix sq
    assume a: "(case getPiece b sq of
                  None \<Rightarrow> Return False
                | Some r \<Rightarrow>
                    if color (h ! r) = opponent c then
                      andThen (getPossibleMoves n h b (h ! r) sq) (\<lambda>possibleMoves.
                        Return (list_ex (\<lambda>m. toPos m = pos) possibleMoves))
                    else Return False) \<noteq> OutOfFuel"
    show "(case getPiece b sq of
                  None \<Rightarrow> Return False
                | Some r \<Rightarrow>
                    if color (h ! r) = opponent c then
                      andThen (getPossibleMoves (Suc n) h b (h ! r) sq) (\<lambda>possibleMoves.
                        Return (list_ex (\<lambda>m. toPos m = pos) possibleMoves))
                    else Return False) =
          (case getPiece b sq of
                  None \<Rightarrow> Return False
                | Some r \<Rightarrow>
                    if color (h ! r) = opponent c then
                      andThen (getPossibleMoves n h b (h ! r) sq) (\<lambda>possibleMoves.
                        Return (list_ex (\<lambda>m. toPos m = pos) possibleMoves))
                    else Return False)"
    proof (cases "getPiece b sq")
      case None
      then show ?thesis by simp
    next
      case (Some r)
      show ?thesis
      proof (cases "color (h ! r) = opponent c")
        case False
        with Some show ?thesis by simp
      next
        case True
        with Some a have "getPossibleMoves n h b (h ! r) sq \<noteq> OutOfFuel"
          by (auto simp: andThen_def)
        from getPossibleMoves_stable [OF assms this] Some True show ?thesis by simp
      qed
    qed
  qed
qed

lemma attackStable_all: "attackStable n h b"
proof (induction n)
  case 0
  show ?case by (simp add: attackStable_def)
next
  case (Suc n)
  then show ?case by (rule attackStable_Suc)
qed

lemma isPositionUnderAttack_more_fuel:
  assumes "isPositionUnderAttack n h b pos c \<noteq> OutOfFuel"
  shows "isPositionUnderAttack (n + k) h b pos c = isPositionUnderAttack n h b pos c"
proof (induction k)
  case 0
  show ?case by simp
next
  case (Suc k)
  with assms attackStableD [OF attackStable_all, of "n + k" h b pos c] show ?case
    by (simp del: isPositionUnderAttack.simps)
qed

lemma isInCheck_more_fuel:
  assumes "isInCheck n h b c \<noteq> OutOfFuel"
  shows "isInCheck (n + k) h b c = isInCheck n h b c"
proof (induction k)
  case 0
  show ?case by simp
next
  case (Suc k)
  with assms isInCheck_stable [OF attackStable_all, of "n + k" h b c] show ?case
    by simp
qed

lemma getPossibleMoves_more_fuel:
  assumes "getPossibleMoves n h b p cur \<noteq> OutOfFuel"
  shows "getPossibleMoves (n + k) h b p cur = getPossibleMoves n h b p cur"
proof (induction k)
  case 0
  show ?case by simp
next
  case (Suc k)
  with assms getPossibleMoves_stable [OF attackStable_all, of "n + k" h b p cur] show ?case
    by simp
qed

section \<open>Termination of the attack queries\<close>

text \<open>
  In the initial position neither king has moved. The attack query on the white king's
  square asks the black king for its moves, which asks whether Black is in check, which
  asks the white king for its moves, which asks whether White is in check: at every budget
  the query runs out.
\<close>

lemma initial_attack_queries_run_out:
  "isPositionUnderAttack n initialHeap initialBoard (Position 7 4) WHITE = OutOfFuel \<and>
   isPositionUnderAttack n initialHeap initialBoard (Position 0 4) BLACK = OutOfFuel"
proof (induction n)
  case 0
  show ?case by simp
next
  case (Suc n)
  then show ?case
    unfolding initial_eqs by (simp add: movegen_defs attack_simps)
qed

lemma initial_findKing:
  "findKing initialHeap initialBoard WHITE = Some (Position 7 4)"
  unfolding initial_eqs by (simp add: movegen_defs)

text \<open>
  C1. The claim says that every public Board operation, \<^verbatim>\<open>isInCheck\<close> in particular,
  terminates in every reachable state, the initial position included. On the code,
  \<^verbatim>\<open>isInCheck(White)\<close> on the initial position does not return: whatever the budget, the
  mutual recursion between \<^verbatim>\<open>King.getPossibleMoves\<close> and \<^verbatim>\<open>Board.isInCheck\<close> exhausts it.
\<close>

theorem isInCheck_initial_never_returns:
  "isInCheck n initialHeap initialBoard WHITE = OutOfFuel"
  using initial_attack_queries_run_out [of n]
  by (simp add: initial_findKing isInCheck.simps)

text \<open>
  The same recursion is entered by the first simulation of \<^verbatim>\<open>getAllLegalMoves\<close>: the
  first white piece the scan meets is the pawn on a2, and the check test after its single
  step, run on the copy, never returns.
\<close>

lemma after_first_candidate_run_out:
  "case executeMove (initialHeap @ initialHeap) initialBoard
          (Move (Position 6 0) (Position 5 0) None False False) of
     Returns u s \<Rightarrow>
       findKing (fst s) (snd s) WHITE = Some (Position 7 4) \<and>
       isPositionUnderAttack n (fst s) (snd s) (Position 7 4) WHITE = OutOfFuel \<and>
       isPositionUnderAttack n (fst s) (snd s) (Position 0 4) BLACK = OutOfFuel
   | _ \<Rightarrow> False"
proof (induction n)
  case 0
  show ?case
    unfolding initial_eqs
    by (simp add: movegen_defs exec_defs setPiece_def list_update_numeral)
next
  case (Suc n)
  then show ?case
    unfolding initial_eqs
    by (simp add: movegen_defs attack_simps exec_defs setPiece_def list_update_numeral)
qed

lemma first_candidate_store:
  "case executeMove (initialHeap @ initialHeap) initialBoard
          (Move (Position 6 0) (Position 5 0) None False False) of
     Returns u s \<Rightarrow> fst s = markAsMoved (initialHeap @ initialHeap) 1
   | _ \<Rightarrow> False"
  unfolding initial_eqs
  by (simp add: movegen_defs executeMove_def)

lemma first_candidate_diverges:
  "wouldBeInCheckAfterMove n initialHeap initialBoard
     (Move (Position 6 0) (Position 5 0) None False False) WHITE =
   Diverges (markAsMoved (initialHeap @ initialHeap) 1)"
proof (cases "executeMove (initialHeap @ initialHeap) initialBoard
                (Move (Position 6 0) (Position 5 0) None False False)")
  case (Diverges s)
  with after_first_candidate_run_out [of n] show ?thesis by simp
next
  case (Throws e s)
  with after_first_candidate_run_out [of n] show ?thesis by simp
next
  case (Returns u s)
  with after_first_candidate_run_out [of n]
  have "isInCheck n (fst s) (snd s) WHITE = OutOfFuel"
    by (simp add: isInCheck.simps)
  with Returns have "wouldBeInCheckAfterMove n initialHeap initialBoard
     (Move (Position 6 0) (Position 5 0) None False False) WHITE = Diverges (fst s)"
    by (simp add: wouldBeInCheckAfterMove_def deepCopy_eq)
  moreover have "fst s = markAsMoved (initialHeap @ initialHeap) 1"
    using Returns first_candidate_store by simp
  ultimately show ?thesis by simp
qed

text \<open>
  C6. The claim says that \<^verbatim>\<open>getAllLegalMoves(White)\<close> on the initial position returns
  twenty moves. On the code it returns nothing: at every budget the call runs out in the
  check test of the first candidate move, and the store it leaves is the one in which the
  simulation has marked the pawn on a2 as moved.
\<close>

theorem getAllLegalMoves_initial_never_returns:
  "getAllLegalMoves n initialHeap initialBoard WHITE =
   Diverges (markAsMoved (initialHeap @ initialHeap) 1)"
  using first_candidate_diverges [of n]
  unfolding initial_eqs
  by (simp add: getAllLegalMoves_def movegen_defs getPossibleMoves.simps)

section \<open>Castling\<close>

text \<open>
  \<^verbatim>\<open>getCastlingMoves\<close> passes the king's own square as the first of the squares that
  \<^verbatim>\<open>canCastleThrough\<close> requires to be empty. The king stands there, so the test fails on
  both wings.
\<close>

lemma canCastleThrough_occupied:
  "getPiece b cur \<noteq> None \<Longrightarrow> canCastleThrough n h b p (cur # rest) = Return False"
  by (simp add: canCastleThrough.simps)

lemma getCastlingMoves_occupied:
  "getPiece b cur \<noteq> None \<Longrightarrow> getCastlingMoves n h b p cur = Return []"
  by (simp add: getCastlingMoves.simps canCastleThrough_occupied andThen_def Let_def
      split: option.splits)

lemma leap_plain: "m \<in> set (leap h b p cur d) \<Longrightarrow> \<not> isCastling m \<and> \<not> isEnPassant m"
  by (auto simp: leap_def Let_def split: if_splits option.splits)

lemma kingAdjacent_plain:
  "m \<in> set (kingAdjacent h b p cur) \<Longrightarrow> \<not> isCastling m \<and> \<not> isEnPassant m"
  unfolding kingAdjacent_def using leap_plain by fastforce

lemma King_getPossibleMoves_occupied:
  assumes "getPiece b cur \<noteq> None" and "King_getPossibleMoves n h b p cur = Return ms"
  shows "ms = kingAdjacent h b p cur"
  using assms
  by (auto simp: King_getPossibleMoves.simps getCastlingMoves_occupied andThen_def Let_def
      split: if_splits outcome.splits)

text \<open>
  C4. A castling move appears among a king's pseudo-legal moves only when the king and the
  rook are unmoved, the squares between them are empty and the king's square, path and
  destination are unattacked. On the code this holds in the strongest form: for a king
  standing on the square it is asked about, no castling move appears at all.
\<close>

theorem king_never_offers_castling:
  assumes "getPiece b cur = Some k" and "pieceType (h ! k) = KING"
    and "getPossibleMoves n h b (h ! k) cur = Return ms" and "m \<in> set ms"
  shows "\<not> isCastling m"
proof -
  from assms(2,3) have "King_getPossibleMoves n h b (h ! k) cur = Return ms"
    by (simp add: getPossibleMoves.simps)
  with assms(1) have "ms = kingAdjacent h b (h ! k) cur"
    using King_getPossibleMoves_occupied by simp
  with assms(4) show ?thesis using kingAdjacent_plain by blast
qed

lemma castlingReady_moves:
  "getPossibleMoves 1 (fst castlingReady) (snd castlingReady) (fst castlingReady ! 0)
     (Position 7 4) =
   Return [Move (Position 7 4) (Position 7 5) None False False,
           Move (Position 7 4) (Position 7 3) None False False,
           Move (Position 7 4) (Position 6 4) None False False,
           Move (Position 7 4) (Position 6 5) None False False,
           Move (Position 7 4) (Position 6 3) None False False]"
  unfolding castlingReady_def
  by (simp add: place_defs movegen_defs attack_simps)

theorem king_never_offers_castling_witness:
  "getPiece (snd castlingReady) (Position 7 4) = Some 0 \<and>
   pieceType (fst castlingReady ! 0) = KING \<and>
   getPossibleMoves 1 (fst castlingReady) (snd castlingReady) (fst castlingReady ! 0)
     (Position 7 4) =
   Return [Move (Position 7 4) (Position 7 5) None False False,
           Move (Position 7 4) (Position 7 3) None False False,
           Move (Position 7 4) (Position 6 4) None False False,
           Move (Position 7 4) (Position 6 5) None False False,
           Move (Position 7 4) (Position 6 3) None False False] \<and>
   \<not> isCastling (Move (Position 7 4) (Position 7 5) None False False)"
proof -
  have g: "getPiece (snd castlingReady) (Position 7 4) = Some 0"
    by (simp add: castlingReady_def place_defs getPiece_def)
  have k: "pieceType (fst castlingReady ! 0) = KING"
    by (simp add: castlingReady_def piece_def)
  have m: "Move (Position 7 4) (Position 7 5) None False False \<in>
           set [Move (Position 7 4) (Position 7 5) None False False,
                Move (Position 7 4) (Position 7 3) None False False,
                Move (Position 7 4) (Position 6 4) None False False,
                Move (Position 7 4) (Position 6 5) None False False,
                Move (Position 7 4) (Position 6 3) None False False]"
    by simp
  show ?thesis
    using king_never_offers_castling [OF g k castlingReady_moves m] g k castlingReady_moves
    by simp
qed

section \<open>The simulation and the live board\<close>

text \<open>
  C2. The claim says that simulating a candidate move on the copy changes nothing of the
  live board, no piece's \<^verbatim>\<open>hasMoved\<close> flag in particular. On the code the copy shares the
  piece objects: after \<^verbatim>\<open>getAllLegalMoves(White)\<close> has returned its five moves, the pawn
  on a2, which has not moved, is marked as moved.
\<close>

theorem simulation_marks_live_pawn:
  "(case getAllLegalMoves 1 (fst pawnAndKings) (snd pawnAndKings) WHITE of
      Returns legal h' \<Rightarrow> Some (legal, hasMoved (h' ! 2))
    | _ \<Rightarrow> None) =
   Some ([Move (Position 6 0) (Position 5 0) None False False,
          Move (Position 6 0) (Position 4 0) None False False,
          Move (Position 7 7) (Position 7 6) None False False,
          Move (Position 7 7) (Position 6 7) None False False,
          Move (Position 7 7) (Position 6 6) None False False], True) \<and>
   getPiece (snd pawnAndKings) (Position 6 0) = Some 2 \<and>
   \<not> hasMoved (fst pawnAndKings ! 2)"
  unfolding pawnAndKings_def
  by (simp add: place_defs movegen_defs attack_simps exec_defs)

text \<open>
  C3. The claim says that a failed \<^verbatim>\<open>makeMove\<close> leaves the whole state as it was, every
  \<^verbatim>\<open>hasMoved\<close> flag included. On the code, a move rejected because it would leave the
  mover's king attacked has already been run on the copy: the pinned rook's move is
  refused, the board record is unchanged, and the rook is marked as moved.
\<close>

theorem rejected_move_marks_live_rook:
  "(case Board_makeMove 1 (fst pinnedRook) (snd pinnedRook)
           (Move (Position 6 4) (Position 6 0) None False False) of
      Returns ok s \<Rightarrow> Some (ok, snd s = snd pinnedRook, hasMoved (fst s ! 2))
    | _ \<Rightarrow> None) = Some (False, True, True) \<and>
   getPiece (snd pinnedRook) (Position 6 4) = Some 2 \<and>
   \<not> hasMoved (fst pinnedRook ! 2)"
  unfolding pinnedRook_def
  by (simp add: place_defs movegen_defs attack_simps exec_defs)

section \<open>Pawn moves\<close>

lemma pawnForward_shape:
  assumes "pawnForward h b p cur = Return f" and "x \<in> set f"
  shows "fromPos x = cur \<and> col (toPos x) = col cur \<and> \<not> isEnPassant x \<and> \<not> isCastling x \<and>
         (row (toPos x) = row cur + pawnDirection p \<or>
          row (toPos x) = row cur + 2 * pawnDirection p)"
  using assms
  by (auto simp: pawnForward_def Let_def andThen_def newPosition_def promotionPieces_def
      split: if_splits)

lemma pawnCapture_shape:
  assumes "x \<in> set (pawnCapture h b p cur off)"
  shows "fromPos x = cur \<and> toPos x = Position (row cur + pawnDirection p) (col cur + off)
         \<and> \<not> isCastling x"
  using assms
  by (auto simp: pawnCapture_def Let_def promotionPieces_def split: if_splits option.splits)

lemma pawnForward_back_rank:
  assumes "pawnForward h b p cur = Return f"
    and "row cur + pawnDirection p = backRank (color p)"
  shows "filter (\<lambda>x. toPos x = t) f =
           (if t = Position (backRank (color p)) (col cur) \<and> f \<noteq> []
            then map (\<lambda>k. Move cur t (Some k) False False) promotionPieces else [])"
  using assms
  by (auto simp: pawnForward_def Let_def andThen_def newPosition_def promotionPieces_def
      backRank_def pawnDirection_def split: if_splits)

lemma pawnCapture_filter:
  "filter (\<lambda>x. toPos x = t) (pawnCapture h b p cur off) =
     (if t = Position (row cur + pawnDirection p) (col cur + off)
      then pawnCapture h b p cur off else [])"
  using pawnCapture_shape [of _ h b p cur off]
  by (auto simp: filter_empty_conv filter_id_conv)

lemma pawnCapture_back_rank:
  assumes "row cur + pawnDirection p = backRank (color p)"
  shows "pawnCapture h b p cur off = [] \<or>
         pawnCapture h b p cur off =
           map (\<lambda>k. Move cur (Position (backRank (color p)) (col cur + off)) (Some k) False False)
             promotionPieces \<or>
         pawnCapture h b p cur off =
           [Move cur (Position (backRank (color p)) (col cur + off)) None False True]"
  using assms
  by (auto simp: pawnCapture_def Let_def promotionPieces_def
      backRank_def pawnDirection_def split: if_splits option.splits)

lemma pawn_moves_parts:
  assumes "pieceType p = PAWN" and "getPossibleMoves n h b p cur = Return ms"
  obtains f where "pawnForward h b p cur = Return f"
    and "ms = f @ pawnCapture h b p cur (- 1) @ pawnCapture h b p cur 1"
  using assms
  by (auto simp: getPossibleMoves.simps Pawn_getPossibleMoves_def andThen_def
      split: outcome.splits)

section \<open>En passant\<close>





lemma ray_plain:
  "x \<in> set (ray h b p cur d ds) \<Longrightarrow>
   \<not> isEnPassant x \<and> \<not> isCastling x \<and> promotionPiece x = None \<and> fromPos x = cur"
  by (induction ds) (auto simp: Let_def split: if_splits option.splits)

lemma slide_plain:
  "x \<in> set (slide h b p cur dirs) \<Longrightarrow>
   \<not> isEnPassant x \<and> \<not> isCastling x \<and> promotionPiece x = None \<and> fromPos x = cur"
  by (auto simp: slide_def simp del: ray.simps dest: ray_plain)

lemma leap_shape:
  "x \<in> set (leap h b p cur d) \<Longrightarrow>
   \<not> isEnPassant x \<and> \<not> isCastling x \<and> promotionPiece x = None \<and> fromPos x = cur"
  by (auto simp: leap_def Let_def split: if_splits option.splits)

lemma pawnCapture_enPassant:
  assumes "x \<in> set (pawnCapture h b p cur off)" and "isEnPassant x"
  shows "canEnPassant h b cur (toPos x) \<and> fromPos x = cur"
  using assms
  by (auto simp: pawnCapture_def Let_def promotionPieces_def split: if_splits option.splits)

lemma canEnPassant_facts:
  assumes "canEnPassant h b cur t"
  shows "enPassantTarget b = Some t \<and> \<bar>col cur - col t\<bar> = 1 \<and>
         (\<exists>r. getPiece b cur = Some r \<and>
              row cur = row t + (if color (h ! r) = WHITE then 1 else - 1))"
  using assms by (auto simp: canEnPassant_def split: option.splits)

lemma generated_enPassant:
  assumes occ: "getPiece b cur \<noteq> None"
    and ret: "getPossibleMoves n h b p cur = Return ms"
    and m: "m \<in> set ms" and ep: "isEnPassant m"
  shows "pieceType p = PAWN \<and> canEnPassant h b cur (toPos m) \<and> fromPos m = cur"
proof (cases "pieceType p")
  case PAWN
  obtain f where f: "pawnForward h b p cur = Return f"
    and ms: "ms = f @ pawnCapture h b p cur (- 1) @ pawnCapture h b p cur 1"
    using pawn_moves_parts [OF PAWN ret] by blast
  from m ms ep pawnForward_shape [OF f, of m]
  have "m \<in> set (pawnCapture h b p cur (- 1)) \<or> m \<in> set (pawnCapture h b p cur 1)"
    by auto
  with ep PAWN show ?thesis using pawnCapture_enPassant by blast
next
  case ROOK
  with ret m ep show ?thesis
    using slide_plain by (auto simp: getPossibleMoves.simps Rook_getPossibleMoves_def)
next
  case KNIGHT
  with ret m ep show ?thesis
    using leap_shape by (fastforce simp: getPossibleMoves.simps Knight_getPossibleMoves_def)
next
  case BISHOP
  with ret m ep show ?thesis
    using slide_plain by (auto simp: getPossibleMoves.simps Bishop_getPossibleMoves_def)
next
  case QUEEN
  with ret m ep show ?thesis
    using slide_plain by (auto simp: getPossibleMoves.simps Queen_getPossibleMoves_def)
next
  case KING
  with ret have "King_getPossibleMoves n h b p cur = Return ms"
    by (simp add: getPossibleMoves.simps)
  with occ have "ms = kingAdjacent h b p cur"
    using King_getPossibleMoves_occupied by simp
  with m ep show ?thesis using kingAdjacent_plain by blast
qed


lemma markAsMoved_length: "length (markAsMoved h r) = length h"
  by (simp add: markAsMoved_def)

lemma grid_bookkeeping:
  "getPiece (updateMoveCounters h b m c) q = getPiece b q"
  "getPiece (updateEnPassantTarget h b m) q = getPiece b q"
  "getPiece (b\<lparr>capturedPieces := cs\<rparr>) q = getPiece b q"
  "getPiece (b\<lparr>moveHistory := ms\<rparr>) q = getPiece b q"
  by (auto simp: getPiece_def updateMoveCounters_def updateEnPassantTarget_def Let_def
      split: option.splits)

lemma getPiece_recordMove: "getPiece (recordMove h b m c) q = getPiece b q"
  by (simp add: recordMove_def Let_def grid_bookkeeping split: option.splits)

lemma enPassantTarget_recordMove:
  "enPassantTarget (recordMove h b m c) =
     (case getPiece b (toPos m) of
        None \<Rightarrow> None
      | Some r \<Rightarrow>
          if pieceType (h ! r) = PAWN \<and> \<bar>row (fromPos m) - row (toPos m)\<bar> = 2
          then Some (Position ((row (fromPos m) + row (toPos m)) div 2) (col (toPos m)))
          else None)"
  by (auto simp: recordMove_def Let_def updateMoveCounters_def updateEnPassantTarget_def
      getPiece_def split: option.splits)










lemma pawn_double_step:
  assumes pawn: "pieceType p = PAWN"
    and ret: "getPossibleMoves n h b p cur = Return ms" and m: "m \<in> set ms"
    and two: "\<bar>row (toPos m) - row cur\<bar> = 2"
  shows "m = Move cur (Position (row cur + 2 * pawnDirection p) (col cur)) None False False"
proof -
  obtain f where f: "pawnForward h b p cur = Return f"
    and ms: "ms = f @ pawnCapture h b p cur (- 1) @ pawnCapture h b p cur 1"
    using pawn_moves_parts [OF pawn ret] by blast
  have dir: "pawnDirection p = 1 \<or> pawnDirection p = - 1"
    by (simp add: pawnDirection_def)
  from m ms two dir pawnCapture_shape [of m h b p cur] have "m \<in> set f"
    by auto
  with f two dir show ?thesis
    by (auto simp: pawnForward_def Let_def andThen_def newPosition_def promotionPieces_def
        split: if_splits)
qed



lemma Board_makeMove_accepted:
  assumes "Board_makeMove n h b m = Returns True s"
  obtains k ms h1 where "getPiece b (fromPos m) = Some k"
    and "getPossibleMoves n h b (h ! k) (fromPos m) = Return ms" and "m \<in> set ms"
    and "wouldBeInCheckAfterMove n h b m (color (h ! k)) = Returns False h1"
    and "executeMove h1 b m = Returns () s"
  using assms
  by (auto simp: Board_makeMove_def isMoveValid_def andThen_def list_ex_iff
      split: option.splits outcome.splits effect.splits if_splits)


lemma executeMove_enPassantTarget:
  assumes "executeMove h b m = Returns u s"
  shows "enPassantTarget (snd s) =
           (case getPiece (snd s) (toPos m) of
              None \<Rightarrow> None
            | Some r \<Rightarrow>
                if pieceType (fst s ! r) = PAWN \<and> \<bar>row (fromPos m) - row (toPos m)\<bar> = 2
                then Some (Position ((row (fromPos m) + row (toPos m)) div 2) (col (toPos m)))
                else None)"
proof -
  from assms obtain b2 c where "s = (fst s, recordMove (fst s) b2 m c)"
    by (cases "getPiece b (fromPos m)")
       (auto simp: executeMove_def Let_def split: effect.splits)
  then have "snd s = recordMove (fst s) b2 m c"
    by (metis snd_conv)
  then show ?thesis
    by (simp add: enPassantTarget_recordMove getPiece_recordMove)
qed





lemma afterDoublePush_moves:
  "getPossibleMoves 0 (fst afterDoublePush) (snd afterDoublePush) (fst afterDoublePush ! 2)
     (Position 3 4) =
   Return [Move (Position 3 4) (Position 2 4) None False False,
           Move (Position 3 4) (Position 2 3) None False True]"
  unfolding afterDoublePush_def
  by (simp add: place_defs movegen_defs attack_simps)



section \<open>Pawn promotion\<close>

text \<open>
  A one-square forward move or a capture of an enemy piece that lands on the back rank is
  generated as the four promotion moves and nothing else.
\<close>

lemma promotion_of_plain_landing:
  assumes pawn: "pieceType p = PAWN"
    and ret: "getPossibleMoves n h b p cur = Return ms"
    and m: "m \<in> set ms"
    and rank: "row (toPos m) = backRank (color p)"
    and step: "\<bar>row (toPos m) - row cur\<bar> = 1"
    and plain: "\<not> isEnPassant m"
  shows "filter (\<lambda>x. toPos x = toPos m) ms =
         map (\<lambda>k. Move cur (toPos m) (Some k) False False) [QUEEN, ROOK, BISHOP, KNIGHT]"
proof -
  obtain f where f: "pawnForward h b p cur = Return f"
    and ms: "ms = f @ pawnCapture h b p cur (- 1) @ pawnCapture h b p cur 1"
    using pawn_moves_parts [OF pawn ret] by blast
  have dir: "pawnDirection p = 1 \<or> pawnDirection p = - 1"
    by (simp add: pawnDirection_def)
  have row_m: "row (toPos m) = row cur + pawnDirection p"
    using m ms pawnForward_shape [OF f, of m] pawnCapture_shape [of m h b p cur] step dir
    by auto
  with rank have onRank: "row cur + pawnDirection p = backRank (color p)" by simp
  note fwd = pawnForward_back_rank [OF f onRank]
  note cap = pawnCapture_filter [of _ h b p cur]
  from m ms consider (forward) "m \<in> set f"
    | (left) "m \<in> set (pawnCapture h b p cur (- 1))"
    | (right) "m \<in> set (pawnCapture h b p cur 1)"
    by auto
  then show ?thesis
  proof cases
    case forward
    then have t: "toPos m = Position (backRank (color p)) (col cur)"
      using pawnForward_shape [OF f forward] rank by (cases "toPos m") auto
    from forward have "f \<noteq> []" by auto
    then show ?thesis
      by (simp add: ms fwd cap t onRank promotionPieces_def)
  next
    case left
    then have t: "toPos m = Position (backRank (color p)) (col cur + (- 1))"
      using pawnCapture_shape [OF left] onRank by simp
    from left plain pawnCapture_back_rank [OF onRank, of h b "- 1"]
    have "pawnCapture h b p cur (- 1) =
            map (\<lambda>k. Move cur (toPos m) (Some k) False False) promotionPieces"
      unfolding t by auto
    then show ?thesis
      by (simp add: ms fwd cap t onRank promotionPieces_def)
  next
    case right
    then have t: "toPos m = Position (backRank (color p)) (col cur + 1)"
      using pawnCapture_shape [OF right] onRank by simp
    from right plain pawnCapture_back_rank [OF onRank, of h b 1]
    have "pawnCapture h b p cur 1 =
            map (\<lambda>k. Move cur (toPos m) (Some k) False False) promotionPieces"
      unfolding t by auto
    then show ?thesis
      by (simp add: ms fwd cap t onRank promotionPieces_def)
  qed
qed

text \<open>
  An en-passant move is generated onto the en-passant target only, so none lands on the
  back rank while the target is on rows 1 to 6; and \<^verbatim>\<open>executeMove\<close> sets no other target.
\<close>

lemma executeMove_target_inside:
  assumes ex: "executeMove h b m = Returns u s"
    and vf: "validPosition (fromPos m)" and vt: "validPosition (toPos m)"
  shows "enPassantTargetInside (snd s)"
  using vf vt
  by (auto simp: enPassantTargetInside_def executeMove_enPassantTarget [OF ex]
      validPosition_def split: option.splits)

lemma no_enPassant_onto_back_rank:
  assumes inside: "enPassantTargetInside b"
    and x: "x \<in> set (pawnCapture h b p cur off)"
    and rank: "row (toPos x) = backRank (color p)"
  shows "\<not> isEnPassant x"
proof
  assume "isEnPassant x"
  with pawnCapture_enPassant [OF x] have "canEnPassant h b cur (toPos x)" by simp
  with canEnPassant_facts have "enPassantTarget b = Some (toPos x)" by blast
  with inside rank show False
    by (auto simp: enPassantTargetInside_def backRank_def split: if_splits)
qed

text \<open>
  C7 as stated fails for the two-square advance: it is generated as a single move without
  a promotion piece wherever it lands. A white pawn that has not moved and stands on row 2
  is offered the plain move to row 0.
\<close>

theorem double_step_reaches_back_rank_counterexample:
  "getPiece (snd earlyPawn) (Position 2 0) = Some 2 \<and>
   fst earlyPawn ! 2 = piece WHITE PAWN False \<and>
   getPossibleMoves 0 (fst earlyPawn) (snd earlyPawn) (fst earlyPawn ! 2) (Position 2 0) =
   Return [Move (Position 2 0) (Position 1 0) None False False,
           Move (Position 2 0) (Position 0 0) None False False]"
  unfolding earlyPawn_def
  by (simp add: place_defs movegen_defs attack_simps)

text \<open>
  C7, amended. On a board whose en-passant target, if there is one, lies on rows 1 to 6:
  whenever pawn move generation produces a one-square forward move or a diagonal move that
  lands on the opponent's back rank, the moves generated to that square are exactly the
  four promotion moves, for Queen, Rook, Bishop and Knight in that order, and no other
  move to that square is generated. The two-square advance is generated as a single move
  without a promotion piece wherever it lands. Every board that \<^verbatim>\<open>executeMove\<close> returns
  has its en-passant target, if any, on rows 1 to 6.
\<close>

theorem pawn_promotion_expansion:
  "(pieceType p = PAWN \<and> getPossibleMoves n h b p cur = Return ms \<and>
    enPassantTargetInside b \<and> m \<in> set ms \<and>
    row (toPos m) = backRank (color p) \<and> \<bar>row (toPos m) - row cur\<bar> = 1 \<longrightarrow>
      filter (\<lambda>x. toPos x = toPos m) ms =
      map (\<lambda>k. Move cur (toPos m) (Some k) False False) [QUEEN, ROOK, BISHOP, KNIGHT]) \<and>
   (pieceType p' = PAWN \<and> getPossibleMoves n' h' b' p' cur' = Return ms' \<and>
    m' \<in> set ms' \<and> \<bar>row (toPos m') - row cur'\<bar> = 2 \<longrightarrow>
      m' = Move cur' (Position (row cur' + 2 * pawnDirection p') (col cur')) None False False) \<and>
   (executeMove he be e = Returns u s \<and> validPosition (fromPos e) \<and>
    validPosition (toPos e) \<longrightarrow>
      enPassantTargetInside (snd s))"
proof (intro conjI impI)
  assume a: "pieceType p = PAWN \<and> getPossibleMoves n h b p cur = Return ms \<and>
    enPassantTargetInside b \<and> m \<in> set ms \<and>
    row (toPos m) = backRank (color p) \<and> \<bar>row (toPos m) - row cur\<bar> = 1"
  then obtain f where f: "pawnForward h b p cur = Return f"
    and ms: "ms = f @ pawnCapture h b p cur (- 1) @ pawnCapture h b p cur 1"
    using pawn_moves_parts by blast
  have "\<not> isEnPassant m"
  proof (cases "m \<in> set f")
    case True
    with pawnForward_shape [OF f] show ?thesis by blast
  next
    case False
    with a ms have "m \<in> set (pawnCapture h b p cur (- 1)) \<or> m \<in> set (pawnCapture h b p cur 1)"
      by auto
    with a no_enPassant_onto_back_rank show ?thesis by blast
  qed
  with a show "filter (\<lambda>x. toPos x = toPos m) ms =
      map (\<lambda>k. Move cur (toPos m) (Some k) False False) [QUEEN, ROOK, BISHOP, KNIGHT]"
    using promotion_of_plain_landing by blast
next
  assume "pieceType p' = PAWN \<and> getPossibleMoves n' h' b' p' cur' = Return ms' \<and>
    m' \<in> set ms' \<and> \<bar>row (toPos m') - row cur'\<bar> = 2"
  then show "m' = Move cur' (Position (row cur' + 2 * pawnDirection p') (col cur'))
                     None False False"
    using pawn_double_step by blast
next
  assume "executeMove he be e = Returns u s \<and> validPosition (fromPos e) \<and>
    validPosition (toPos e)"
  then show "enPassantTargetInside (snd s)"
    using executeMove_target_inside by blast
qed

lemma promotingPawn_moves:
  "getPossibleMoves 0 (fst promotingPawn) (snd promotingPawn) (fst promotingPawn ! 2)
     (Position 1 0) =
   Return [Move (Position 1 0) (Position 0 0) (Some QUEEN) False False,
           Move (Position 1 0) (Position 0 0) (Some ROOK) False False,
           Move (Position 1 0) (Position 0 0) (Some BISHOP) False False,
           Move (Position 1 0) (Position 0 0) (Some KNIGHT) False False,
           Move (Position 1 0) (Position 0 1) (Some QUEEN) False False,
           Move (Position 1 0) (Position 0 1) (Some ROOK) False False,
           Move (Position 1 0) (Position 0 1) (Some BISHOP) False False,
           Move (Position 1 0) (Position 0 1) (Some KNIGHT) False False]"
  unfolding promotingPawn_def
  by (simp add: place_defs movegen_defs attack_simps)

lemma earlyPawn_moves:
  "getPossibleMoves 0 (fst earlyPawn) (snd earlyPawn) (fst earlyPawn ! 2) (Position 2 0) =
   Return [Move (Position 2 0) (Position 1 0) None False False,
           Move (Position 2 0) (Position 0 0) None False False]"
  unfolding earlyPawn_def
  by (simp add: place_defs movegen_defs attack_simps)

lemma beforeDoublePush_executeMove:
  "executeMove (fst beforeDoublePush) (snd beforeDoublePush)
     (Move (Position 1 3) (Position 3 3) None False False) =
   Returns () (fst afterDoublePush, snd afterDoublePush)"
  unfolding beforeDoublePush_def afterDoublePush_def
  by (simp add: place_defs movegen_defs exec_defs)

theorem pawn_promotion_expansion_witness:
  "pieceType (fst promotingPawn ! 2) = PAWN \<and>
   enPassantTargetInside (snd promotingPawn) \<and>
   row (Position 0 1) = backRank (color (fst promotingPawn ! 2)) \<and>
   getPossibleMoves 0 (fst promotingPawn) (snd promotingPawn) (fst promotingPawn ! 2)
     (Position 1 0) =
   Return [Move (Position 1 0) (Position 0 0) (Some QUEEN) False False,
           Move (Position 1 0) (Position 0 0) (Some ROOK) False False,
           Move (Position 1 0) (Position 0 0) (Some BISHOP) False False,
           Move (Position 1 0) (Position 0 0) (Some KNIGHT) False False,
           Move (Position 1 0) (Position 0 1) (Some QUEEN) False False,
           Move (Position 1 0) (Position 0 1) (Some ROOK) False False,
           Move (Position 1 0) (Position 0 1) (Some BISHOP) False False,
           Move (Position 1 0) (Position 0 1) (Some KNIGHT) False False] \<and>
   filter (\<lambda>x. toPos x = Position 0 1)
     [Move (Position 1 0) (Position 0 0) (Some QUEEN) False False,
      Move (Position 1 0) (Position 0 0) (Some ROOK) False False,
      Move (Position 1 0) (Position 0 0) (Some BISHOP) False False,
      Move (Position 1 0) (Position 0 0) (Some KNIGHT) False False,
      Move (Position 1 0) (Position 0 1) (Some QUEEN) False False,
      Move (Position 1 0) (Position 0 1) (Some ROOK) False False,
      Move (Position 1 0) (Position 0 1) (Some BISHOP) False False,
      Move (Position 1 0) (Position 0 1) (Some KNIGHT) False False] =
   [Move (Position 1 0) (Position 0 1) (Some QUEEN) False False,
    Move (Position 1 0) (Position 0 1) (Some ROOK) False False,
    Move (Position 1 0) (Position 0 1) (Some BISHOP) False False,
    Move (Position 1 0) (Position 0 1) (Some KNIGHT) False False] \<and>
   pieceType (fst earlyPawn ! 2) = PAWN \<and> pawnDirection (fst earlyPawn ! 2) = - 1 \<and>
   getPossibleMoves 0 (fst earlyPawn) (snd earlyPawn) (fst earlyPawn ! 2) (Position 2 0) =
   Return [Move (Position 2 0) (Position 1 0) None False False,
           Move (Position 2 0) (Position 0 0) None False False] \<and>
   executeMove (fst beforeDoublePush) (snd beforeDoublePush)
     (Move (Position 1 3) (Position 3 3) None False False) =
   Returns () (fst afterDoublePush, snd afterDoublePush) \<and>
   enPassantTarget (snd afterDoublePush) = Some (Position 2 3) \<and>
   enPassantTargetInside (snd afterDoublePush)"
proof -
  have pawn: "pieceType (fst promotingPawn ! 2) = PAWN"
    and rank: "backRank (color (fst promotingPawn ! 2)) = 0"
    and inside: "enPassantTargetInside (snd promotingPawn)"
    by (simp_all add: promotingPawn_def place_defs backRank_def enPassantTargetInside_def)
  have early: "pieceType (fst earlyPawn ! 2) = PAWN"
    and dir: "pawnDirection (fst earlyPawn ! 2) = - 1"
    by (simp_all add: earlyPawn_def piece_def pawnDirection_def)
  have target: "enPassantTarget (snd afterDoublePush) = Some (Position 2 3)"
    by (simp add: afterDoublePush_def)
  note inst = pawn_promotion_expansion
      [where p = "fst promotingPawn ! 2" and n = 0 and h = "fst promotingPawn"
        and b = "snd promotingPawn" and cur = "Position 1 0"
        and ms = "[Move (Position 1 0) (Position 0 0) (Some QUEEN) False False,
                   Move (Position 1 0) (Position 0 0) (Some ROOK) False False,
                   Move (Position 1 0) (Position 0 0) (Some BISHOP) False False,
                   Move (Position 1 0) (Position 0 0) (Some KNIGHT) False False,
                   Move (Position 1 0) (Position 0 1) (Some QUEEN) False False,
                   Move (Position 1 0) (Position 0 1) (Some ROOK) False False,
                   Move (Position 1 0) (Position 0 1) (Some BISHOP) False False,
                   Move (Position 1 0) (Position 0 1) (Some KNIGHT) False False]"
        and m = "Move (Position 1 0) (Position 0 1) (Some QUEEN) False False"
        and p' = "fst earlyPawn ! 2" and n' = 0 and h' = "fst earlyPawn"
        and b' = "snd earlyPawn" and cur' = "Position 2 0"
        and ms' = "[Move (Position 2 0) (Position 1 0) None False False,
                    Move (Position 2 0) (Position 0 0) None False False]"
        and m' = "Move (Position 2 0) (Position 0 0) None False False"
        and he = "fst beforeDoublePush" and be = "snd beforeDoublePush"
        and e = "Move (Position 1 3) (Position 3 3) None False False"
        and u = "()" and s = "(fst afterDoublePush, snd afterDoublePush)"]
  show ?thesis
    using inst pawn rank inside early dir target promotingPawn_moves earlyPawn_moves
      beforeDoublePush_executeMove
    by (simp add: validPosition_def)
qed

section \<open>Moves through the notation entry point\<close>

lemma pawnCapture_enPassant_only:
  assumes "x \<in> set (pawnCapture h b p cur off)" and "isEnPassant x"
    and "y \<in> set (pawnCapture h b p cur off)"
  shows "y = x"
  using assms
  by (auto simp: pawnCapture_def Let_def promotionPieces_def split: if_splits option.splits)

lemma generated_not_castling:
  assumes occ: "getPiece b cur \<noteq> None"
    and ret: "getPossibleMoves n h b p cur = Return ms" and y: "y \<in> set ms"
  shows "\<not> isCastling y"
proof (cases "pieceType p")
  case PAWN
  obtain f where f: "pawnForward h b p cur = Return f"
    and ms: "ms = f @ pawnCapture h b p cur (- 1) @ pawnCapture h b p cur 1"
    using pawn_moves_parts [OF PAWN ret] by blast
  with y pawnForward_shape [OF f, of y] pawnCapture_shape [of y h b p cur]
  show ?thesis by auto
next
  case ROOK
  with ret y show ?thesis
    using slide_plain by (auto simp: getPossibleMoves.simps Rook_getPossibleMoves_def)
next
  case KNIGHT
  with ret y show ?thesis
    using leap_shape by (fastforce simp: getPossibleMoves.simps Knight_getPossibleMoves_def)
next
  case BISHOP
  with ret y show ?thesis
    using slide_plain by (auto simp: getPossibleMoves.simps Bishop_getPossibleMoves_def)
next
  case QUEEN
  with ret y show ?thesis
    using slide_plain by (auto simp: getPossibleMoves.simps Queen_getPossibleMoves_def)
next
  case KING
  with ret have "King_getPossibleMoves n h b p cur = Return ms"
    by (simp add: getPossibleMoves.simps)
  with occ have "ms = kingAdjacent h b p cur"
    using King_getPossibleMoves_occupied by simp
  with y show ?thesis using kingAdjacent_plain by blast
qed

lemma flagged_alone:
  assumes occ: "getPiece b cur \<noteq> None"
    and ret: "getPossibleMoves n h b p cur = Return ms"
    and m: "m \<in> set ms" and flag: "isCastling m \<or> isEnPassant m"
    and x: "x \<in> set ms" and same: "toPos x = toPos m"
  shows "x = m"
proof -
  from generated_not_castling [OF occ ret m] flag have ep: "isEnPassant m" by blast
  from generated_enPassant [OF occ ret m ep] have pawn: "pieceType p = PAWN" by simp
  obtain f where f: "pawnForward h b p cur = Return f"
    and ms: "ms = f @ pawnCapture h b p cur (- 1) @ pawnCapture h b p cur 1"
    using pawn_moves_parts [OF pawn ret] by blast
  from m ms ep pawnForward_shape [OF f, of m]
  consider (left) "m \<in> set (pawnCapture h b p cur (- 1))"
    | (right) "m \<in> set (pawnCapture h b p cur 1)" by auto
  then show ?thesis
  proof cases
    case left
    from pawnCapture_shape [OF left] same
    have t: "toPos x = Position (row cur + pawnDirection p) (col cur + (- 1))" by simp
    from x ms t pawnForward_shape [OF f, of x] pawnCapture_shape [of x h b p cur 1]
    have "x \<in> set (pawnCapture h b p cur (- 1))" by auto
    with pawnCapture_enPassant_only [OF left ep] show ?thesis by simp
  next
    case right
    from pawnCapture_shape [OF right] same
    have t: "toPos x = Position (row cur + pawnDirection p) (col cur + 1)" by simp
    from x ms t pawnForward_shape [OF f, of x] pawnCapture_shape [of x h b p cur "- 1"]
    have "x \<in> set (pawnCapture h b p cur 1)" by auto
    with pawnCapture_enPassant_only [OF right ep] show ?thesis by simp
  qed
qed

lemma moveHistory_setPiece: "moveHistory (setPiece b p x) = moveHistory b"
  by (simp add: setPiece_def)

lemma moveHistory_recordMove: "moveHistory (recordMove h b m c) = moveHistory b @ [m]"
  by (auto simp: recordMove_def Let_def updateMoveCounters_def updateEnPassantTarget_def
      split: option.splits)

lemma executeMove_history:
  assumes "executeMove h b m = Returns u s"
  shows "moveHistory (snd s) = moveHistory b @ [m]"
  using assms
  by (auto simp: executeMove_def executeCastling_def executeEnPassant_def Let_def
      createPiece_def moveHistory_recordMove moveHistory_setPiece
      split: option.splits if_splits effect.splits)

lemma updateGameState_board:
  assumes "updateGameState n h g = Returns u s"
  shows "board (snd s) = board g"
  using assms
  by (auto simp: updateGameState_def split: effect.splits outcome.splits if_splits)

lemma ChessGame_makeMove_accepted:
  assumes "ChessGame_makeMove n h g m = Returns True s"
  obtains s1 where "Board_makeMove n h (board g) m = Returns True s1"
    and "board (snd s) = snd s1"
  using assms
  by (auto simp: ChessGame_makeMove_def updateGameState_board
      split: option.splits if_splits effect.splits dest!: updateGameState_board)

lemma accepted_history:
  assumes "ChessGame_makeMove n h g m = Returns True s"
  shows "moveHistory (board (snd s)) = moveHistory (board g) @ [m]"
proof -
  obtain s1 where b: "Board_makeMove n h (board g) m = Returns True s1"
    and eq: "board (snd s) = snd s1"
    using ChessGame_makeMove_accepted [OF assms] by blast
  from Board_makeMove_accepted [OF b] obtain h1 where "executeMove h1 (board g) m = Returns () s1"
    by blast
  from executeMove_history [OF this] eq show ?thesis by simp
qed

lemma makeMoveFromAlgebraic_accepted:
  assumes "makeMoveFromAlgebraic n h g fs ts promo = Returns True s"
  obtains rf cf rt ct where
    "ChessGame_makeMove n h g
       (Move (Position rf cf) (Position rt ct) (parsePromotion promo) False False) =
     Returns True s"
  using assms
  by (auto simp: makeMoveFromAlgebraic_def makeMoveParsed_def
      split: outcome.splits effect.splits jsnum.splits if_splits option.splits)

text \<open>
  A king's generated moves go to adjacent squares only, so a request to move a king by two
  files or more is never among them. The request ends in one of three ways, each with the
  store and the game as they were: it is refused, the generation of the king's moves
  overflows the stack, or it throws.
\<close>

lemma leap_target:
  "x \<in> set (leap h b p cur d) \<Longrightarrow>
   fromPos x = cur \<and> toPos x = Position (row cur + fst d) (col cur + snd d)"
  by (auto simp: leap_def Let_def split: if_splits option.splits)

lemma kingAdjacent_near:
  assumes "x \<in> set (kingAdjacent h b p cur)"
  shows "fromPos x = cur \<and> \<bar>col (toPos x) - col cur\<bar> \<le> 1 \<and>
         \<bar>row (toPos x) - row cur\<bar> \<le> 1"
proof -
  from assms obtain d where d: "d \<in> set [(0, 1), (0, - 1), (1, 0), (- 1, 0), (1, 1),
                                          (1, - 1), (- 1, 1), (- 1, - 1 :: int) :: int \<times> int]"
    and x: "x \<in> set (leap h b p cur d)"
    unfolding kingAdjacent_def by auto
  from d have "\<bar>fst d\<bar> \<le> 1 \<and> \<bar>snd d\<bar> \<le> 1" by auto
  with leap_target [OF x] show ?thesis by simp
qed

lemma king_far_move_board:
  assumes src: "getPiece b (fromPos mv) = Some k"
    and king: "pieceType (h ! k) = KING"
    and far: "1 < \<bar>col (toPos mv) - col (fromPos mv)\<bar>"
  shows "Board_makeMove n h b mv = Returns False (h, b) \<or>
         Board_makeMove n h b mv = Diverges (h, b) \<or>
         (\<exists>e. Board_makeMove n h b mv = Throws e (h, b))"
proof (cases "getPossibleMoves n h b (h ! k) (fromPos mv)")
  case OutOfFuel
  then have "isMoveValid n h b (h ! k) mv = OutOfFuel"
    by (simp add: isMoveValid_def andThen_def)
  with src have "Board_makeMove n h b mv = Diverges (h, b)"
    by (simp add: Board_makeMove_def)
  then show ?thesis by simp
next
  case (Raise e)
  then have "isMoveValid n h b (h ! k) mv = Raise e"
    by (simp add: isMoveValid_def andThen_def)
  with src have "Board_makeMove n h b mv = Throws e (h, b)"
    by (simp add: Board_makeMove_def)
  then show ?thesis by simp
next
  case (Return ms)
  with king have "King_getPossibleMoves n h b (h ! k) (fromPos mv) = Return ms"
    by (simp add: getPossibleMoves.simps)
  with src have "ms = kingAdjacent h b (h ! k) (fromPos mv)"
    using King_getPossibleMoves_occupied by simp
  with far have "mv \<notin> set ms"
    using kingAdjacent_near [of mv h b "h ! k" "fromPos mv"] by auto
  with Return have "isMoveValid n h b (h ! k) mv = Return False"
    by (simp add: isMoveValid_def andThen_def list_ex_iff)
  with src have "Board_makeMove n h b mv = Returns False (h, b)"
    by (simp add: Board_makeMove_def)
  then show ?thesis by simp
qed

lemma king_far_move_refused:
  assumes src: "getPiece (board g) (fromPos mv) = Some k"
    and king: "pieceType (h ! k) = KING"
    and far: "1 < \<bar>col (toPos mv) - col (fromPos mv)\<bar>"
  shows "ChessGame_makeMove n h g mv = Returns False (h, g) \<or>
         ChessGame_makeMove n h g mv = Diverges (h, g) \<or>
         (\<exists>e. ChessGame_makeMove n h g mv = Throws e (h, g))"
proof (cases "(gameState g \<noteq> ONGOING \<and> gameState g \<noteq> CHECK) \<or>
              color (h ! k) \<noteq> currentPlayer g")
  case True
  with src have "ChessGame_makeMove n h g mv = Returns False (h, g)"
    by (auto simp: ChessGame_makeMove_def)
  then show ?thesis by simp
next
  case False
  have same: "g\<lparr>board := board g\<rparr> = g" by simp
  from king_far_move_board [OF src king far, of n]
  consider (refused) "Board_makeMove n h (board g) mv = Returns False (h, board g)"
    | (overflow) "Board_makeMove n h (board g) mv = Diverges (h, board g)"
    | (thrown) e where "Board_makeMove n h (board g) mv = Throws e (h, board g)"
    by blast
  then show ?thesis
  proof cases
    case refused
    with False src have "ChessGame_makeMove n h g mv = Returns False (h, g)"
      by (simp add: ChessGame_makeMove_def)
    then show ?thesis by simp
  next
    case overflow
    with False src have "ChessGame_makeMove n h g mv = Diverges (h, g)"
      by (simp add: ChessGame_makeMove_def)
    then show ?thesis by simp
  next
    case thrown
    with False src have "ChessGame_makeMove n h g mv = Throws e (h, g)"
      by (simp add: ChessGame_makeMove_def)
    then show ?thesis by simp
  qed
qed

text \<open>
  C9. \<^verbatim>\<open>makeMoveFromAlgebraic\<close> builds its move with both flags false, and validation
  compares moves structurally. So whenever the pseudo-legal moves of the piece on the
  source square contain an en-passant move to the destination square, the call returns
  false and the store and the game are unchanged. A castling attempt, the request to move
  the king on the source square by two files or more, returns false with the store and the
  game unchanged, at every budget. And every move that the entry point does perform is
  recorded with both flags false.
\<close>

theorem algebraic_entry_never_special:
  "(fromAlgebraic fs = Return (JsPosition (Num rf) cf) \<and>
    fromAlgebraic ts = Return (JsPosition (Num rt) ct) \<and>
    getPiece (board g) (Position rf cf) = Some k \<and>
    getPossibleMoves n h (board g) (h ! k) (Position rf cf) = Return ms \<and>
    m \<in> set ms \<and> toPos m = Position rt ct \<and> isEnPassant m \<longrightarrow>
      makeMoveFromAlgebraic n h g fs ts promo = Returns False (h, g)) \<and>
   (fromAlgebraic fc = Return (JsPosition (Num rc) cc) \<and>
    fromAlgebraic tc = Return (JsPosition (Num rd) cd) \<and>
    getPiece (board gc) (Position rc cc) = Some kc \<and> pieceType (hc ! kc) = KING \<and>
    1 < \<bar>cd - cc\<bar> \<longrightarrow>
      makeMoveFromAlgebraic nc hc gc fc tc pc = Returns False (hc, gc)) \<and>
   (makeMoveFromAlgebraic na ha ga fa ta pa = Returns True s \<longrightarrow>
      moveHistory (board (snd s)) \<noteq> [] \<and>
      \<not> isCastling (last (moveHistory (board (snd s)))) \<and>
      \<not> isEnPassant (last (moveHistory (board (snd s)))))"
proof (intro conjI impI)
  assume a: "fromAlgebraic fs = Return (JsPosition (Num rf) cf) \<and>
    fromAlgebraic ts = Return (JsPosition (Num rt) ct) \<and>
    getPiece (board g) (Position rf cf) = Some k \<and>
    getPossibleMoves n h (board g) (h ! k) (Position rf cf) = Return ms \<and>
    m \<in> set ms \<and> toPos m = Position rt ct \<and> isEnPassant m"
  define mv where "mv = Move (Position rf cf) (Position rt ct) (parsePromotion promo) False False"
  from a have occ: "getPiece (board g) (Position rf cf) \<noteq> None" by simp
  have "mv \<notin> set ms"
  proof
    assume "mv \<in> set ms"
    with a flagged_alone [OF occ, of n h "h ! k" ms m mv] have "mv = m"
      by (simp add: mv_def)
    with a show False by (auto simp: mv_def)
  qed
  then have invalid: "isMoveValid n h (board g) (h ! k) mv = Return False"
    using a by (simp add: isMoveValid_def andThen_def list_ex_iff mv_def)
  have "Board_makeMove n h (board g) mv = Returns False (h, board g)"
    using a invalid by (simp add: Board_makeMove_def mv_def)
  then have "ChessGame_makeMove n h g mv = Returns False (h, g)"
    using a by (simp add: ChessGame_makeMove_def mv_def)
  then show "makeMoveFromAlgebraic n h g fs ts promo = Returns False (h, g)"
    using a by (simp add: makeMoveFromAlgebraic_def makeMoveParsed_def mv_def)
next
  assume a: "fromAlgebraic fc = Return (JsPosition (Num rc) cc) \<and>
    fromAlgebraic tc = Return (JsPosition (Num rd) cd) \<and>
    getPiece (board gc) (Position rc cc) = Some kc \<and> pieceType (hc ! kc) = KING \<and>
    1 < \<bar>cd - cc\<bar>"
  define mv where "mv = Move (Position rc cc) (Position rd cd) (parsePromotion pc) False False"
  from a king_far_move_refused [of gc mv kc hc nc]
  have "ChessGame_makeMove nc hc gc mv = Returns False (hc, gc) \<or>
        ChessGame_makeMove nc hc gc mv = Diverges (hc, gc) \<or>
        (\<exists>e. ChessGame_makeMove nc hc gc mv = Throws e (hc, gc))"
    by (simp add: mv_def)
  moreover have "makeMoveFromAlgebraic nc hc gc fc tc pc =
      (case ChessGame_makeMove nc hc gc mv of
         Diverges s \<Rightarrow> Returns False s
       | Throws e s \<Rightarrow> Returns False s
       | Returns ok s \<Rightarrow> Returns ok s)"
    using a by (simp add: makeMoveFromAlgebraic_def makeMoveParsed_def mv_def)
  ultimately show "makeMoveFromAlgebraic nc hc gc fc tc pc = Returns False (hc, gc)"
    by auto
next
  assume acc: "makeMoveFromAlgebraic na ha ga fa ta pa = Returns True s"
  then obtain rf' cf' rt' ct' where
    "ChessGame_makeMove na ha ga
       (Move (Position rf' cf') (Position rt' ct') (parsePromotion pa) False False) =
     Returns True s"
    using makeMoveFromAlgebraic_accepted by blast
  from accepted_history [OF this]
  show "moveHistory (board (snd s)) \<noteq> []"
    and "\<not> isCastling (last (moveHistory (board (snd s))))"
    and "\<not> isEnPassant (last (moveHistory (board (snd s))))"
    by simp_all
qed

lemma enPassant_attempt_rejected:
  "makeMoveFromAlgebraic 1 (fst afterDoublePush) gameAfterDoublePush
     (ascii ''e5'') (ascii ''d6'') None =
   Returns False (fst afterDoublePush, gameAfterDoublePush)"
  unfolding afterDoublePush_def gameAfterDoublePush_def
  by (simp add: place_defs movegen_defs attack_simps exec_defs game_defs notation_defs)

lemma advance_accepted:
  "makeMoveFromAlgebraic 1 (fst afterDoublePush) gameAfterDoublePush
     (ascii ''e5'') (ascii ''e6'') None =
   Returns True
     (fst afterDoublePush @ initialHeap @ initialHeap @ initialHeap @ initialHeap @
        initialHeap @ initialHeap @ initialHeap,
      gameAfterAdvance)"
  unfolding afterDoublePush_def gameAfterDoublePush_def gameAfterAdvance_def afterAdvance_def
  by (simp add: place_defs movegen_defs attack_simps exec_defs game_defs notation_defs)

theorem algebraic_entry_never_special_witness:
  "fromAlgebraic (ascii ''e5'') = Return (JsPosition (Num 3) 4) \<and>
   fromAlgebraic (ascii ''d6'') = Return (JsPosition (Num 2) 3) \<and>
   getPiece (board gameAfterDoublePush) (Position 3 4) = Some 2 \<and>
   getPossibleMoves 0 (fst afterDoublePush) (board gameAfterDoublePush)
     (fst afterDoublePush ! 2) (Position 3 4) =
     Return [Move (Position 3 4) (Position 2 4) None False False,
             Move (Position 3 4) (Position 2 3) None False True] \<and>
   makeMoveFromAlgebraic 0 (fst afterDoublePush) gameAfterDoublePush
     (ascii ''e5'') (ascii ''d6'') None =
     Returns False (fst afterDoublePush, gameAfterDoublePush) \<and>
   fromAlgebraic (ascii ''e1'') = Return (JsPosition (Num 7) 4) \<and>
   fromAlgebraic (ascii ''g1'') = Return (JsPosition (Num 7) 6) \<and>
   getPiece (board initialGame) (Position 7 4) = Some 25 \<and>
   pieceType (initialHeap ! 25) = KING \<and>
   makeMoveFromAlgebraic 3 initialHeap initialGame (ascii ''e1'') (ascii ''g1'') None =
     Returns False (initialHeap, initialGame) \<and>
   getPiece (board gameCastlingReady) (Position 7 4) = Some 0 \<and>
   pieceType (fst castlingReady ! 0) = KING \<and>
   makeMoveFromAlgebraic 1 (fst castlingReady) gameCastlingReady
     (ascii ''e1'') (ascii ''g1'') None =
     Returns False (fst castlingReady, gameCastlingReady) \<and>
   makeMoveFromAlgebraic 1 (fst afterDoublePush) gameAfterDoublePush
     (ascii ''e5'') (ascii ''e6'') None =
     Returns True
       (fst afterDoublePush @ initialHeap @ initialHeap @ initialHeap @ initialHeap @
          initialHeap @ initialHeap @ initialHeap,
        gameAfterAdvance) \<and>
   last (moveHistory (board gameAfterAdvance)) =
     Move (Position 3 4) (Position 2 4) None False False"
proof -
  have f: "fromAlgebraic (ascii ''e5'') = Return (JsPosition (Num 3) 4)"
    and t: "fromAlgebraic (ascii ''d6'') = Return (JsPosition (Num 2) 3)"
    and fk: "fromAlgebraic (ascii ''e1'') = Return (JsPosition (Num 7) 4)"
    and tk: "fromAlgebraic (ascii ''g1'') = Return (JsPosition (Num 7) 6)"
    by (simp_all add: notation_defs)
  have brd: "board gameAfterDoublePush = snd afterDoublePush"
    by (simp add: gameAfterDoublePush_def)
  have src: "getPiece (snd afterDoublePush) (Position 3 4) = Some 2"
    by (simp add: afterDoublePush_def place_defs getPiece_def)
  have hist: "moveHistory (board gameAfterAdvance) =
                [Move (Position 1 3) (Position 3 3) None False False,
                 Move (Position 3 4) (Position 2 4) None False False]"
    by (simp add: gameAfterAdvance_def afterAdvance_def)
  have king: "getPiece (board initialGame) (Position 7 4) = Some 25"
    and kingType: "pieceType (initialHeap ! 25) = KING"
    unfolding initialGame_eq initial_eqs by (simp_all add: getPiece_def)
  have ready: "getPiece (board gameCastlingReady) (Position 7 4) = Some 0"
    and readyType: "pieceType (fst castlingReady ! 0) = KING"
    by (simp_all add: gameCastlingReady_def castlingReady_def place_defs getPiece_def)
  note inst = algebraic_entry_never_special
      [where fs = "ascii ''e5''" and ts = "ascii ''d6''" and rf = 3 and cf = 4 and rt = 2
        and ct = 3 and g = gameAfterDoublePush and k = 2 and n = 0
        and h = "fst afterDoublePush"
        and ms = "[Move (Position 3 4) (Position 2 4) None False False,
                   Move (Position 3 4) (Position 2 3) None False True]"
        and m = "Move (Position 3 4) (Position 2 3) None False True" and promo = None
        and fc = "ascii ''e1''" and tc = "ascii ''g1''" and rc = 7 and cc = 4 and rd = 7
        and cd = 6 and gc = initialGame and kc = 25 and hc = initialHeap and nc = 3
        and pc = None
        and na = 1 and ha = "fst afterDoublePush" and ga = gameAfterDoublePush
        and fa = "ascii ''e5''" and ta = "ascii ''e6''" and pa = None
        and s = "(fst afterDoublePush @ initialHeap @ initialHeap @ initialHeap @ initialHeap @
                    initialHeap @ initialHeap @ initialHeap,
                  gameAfterAdvance)"]
  note castle = algebraic_entry_never_special
      [where fc = "ascii ''e1''" and tc = "ascii ''g1''" and rc = 7 and cc = 4 and rd = 7
        and cd = 6 and gc = gameCastlingReady and kc = 0 and hc = "fst castlingReady"
        and nc = 1 and pc = None, THEN conjunct2, THEN conjunct1]
  have "makeMoveFromAlgebraic 1 (fst castlingReady) gameCastlingReady
          (ascii ''e1'') (ascii ''g1'') None =
        Returns False (fst castlingReady, gameCastlingReady)"
    using castle fk tk ready readyType by simp
  then show ?thesis
    using inst f t fk tk brd src hist king kingType ready readyType afterDoublePush_moves
      advance_accepted
    by simp
qed

section \<open>Turn order\<close>

lemma executeMove_returns:
  assumes "getPiece b (fromPos m) = Some k" and "\<not> isCastling m"
  shows "\<exists>s. executeMove h b m = Returns () s"
  using assms
  by (auto simp: executeMove_def executeEnPassant_def Let_def split_beta
      split: option.splits)

text \<open>
  Where the check test of the simulation returns, \<^verbatim>\<open>Board.makeMove\<close> looks at no side to
  move: a pseudo-legal move of the piece on the source square whose simulation does not
  leave that piece's own king attacked is executed and accepted, whatever was played
  before. Rejection for a terminal game state or for a piece of the colour not to move
  happens in \<^verbatim>\<open>ChessGame.makeMove\<close>, before the board is asked.
\<close>

lemma Board_makeMove_asks_no_turn:
  "(getPiece b (fromPos m) = Some k \<and>
    getPossibleMoves n h b (h ! k) (fromPos m) = Return ms \<and> m \<in> set ms \<and>
    wouldBeInCheckAfterMove n h b m (color (h ! k)) = Returns False hs \<longrightarrow>
      (\<exists>s. executeMove hs b m = Returns () s \<and> Board_makeMove n h b m = Returns True s)) \<and>
   ((gameState g \<noteq> ONGOING \<and> gameState g \<noteq> CHECK) \<or>
    (getPiece (board g) (fromPos mv) = Some r \<and> color (hg ! r) \<noteq> currentPlayer g) \<longrightarrow>
      ChessGame_makeMove ng hg g mv = Returns False (hg, g))"
proof (intro conjI impI)
  assume a: "getPiece b (fromPos m) = Some k \<and>
    getPossibleMoves n h b (h ! k) (fromPos m) = Return ms \<and> m \<in> set ms \<and>
    wouldBeInCheckAfterMove n h b m (color (h ! k)) = Returns False hs"
  then have "\<not> isCastling m"
    using generated_not_castling [of b "fromPos m" n h "h ! k" ms m] by simp
  with a obtain s where s: "executeMove hs b m = Returns () s"
    using executeMove_returns by blast
  have "isMoveValid n h b (h ! k) m = Return True"
    using a by (simp add: isMoveValid_def andThen_def list_ex_iff)
  with a s have "Board_makeMove n h b m = Returns True s"
    by (simp add: Board_makeMove_def)
  with s show "\<exists>s. executeMove hs b m = Returns () s \<and> Board_makeMove n h b m = Returns True s"
    by blast
next
  assume "(gameState g \<noteq> ONGOING \<and> gameState g \<noteq> CHECK) \<or>
    (getPiece (board g) (fromPos mv) = Some r \<and> color (hg ! r) \<noteq> currentPlayer g)"
  then show "ChessGame_makeMove ng hg g mv = Returns False (hg, g)"
    by (auto simp: ChessGame_makeMove_def)
qed

lemma afterAdvance_moves:
  "getPossibleMoves 1 (fst afterAdvance) (snd afterAdvance) (fst afterAdvance ! 2)
     (Position 2 4) = Return [Move (Position 2 4) (Position 1 4) None False False]"
  unfolding afterAdvance_def afterDoublePush_def
  by (simp add: place_defs movegen_defs attack_simps)

lemma afterAdvance_simulation:
  "wouldBeInCheckAfterMove 1 (fst afterAdvance) (snd afterAdvance)
     (Move (Position 2 4) (Position 1 4) None False False) WHITE =
   Returns False (fst afterAdvance @ initialHeap)"
  unfolding afterAdvance_def afterDoublePush_def
  by (simp add: place_defs movegen_defs attack_simps exec_defs)

lemma afterAdvance_second_white_move:
  "Board_makeMove 1 (fst afterAdvance) (snd afterAdvance)
     (Move (Position 2 4) (Position 1 4) None False False) =
   Returns True
     (fst afterAdvance @ initialHeap,
      (placeAll [(Position 7 4, 0), (Position 0 4, 1), (Position 1 4, 2), (Position 3 3, 3)])
        \<lparr>moveHistory := [Move (Position 1 3) (Position 3 3) None False False,
                         Move (Position 3 4) (Position 2 4) None False False,
                         Move (Position 2 4) (Position 1 4) None False False],
         fullMoveNumber := 2\<rparr>)"
  unfolding afterAdvance_def afterDoublePush_def
  by (simp add: place_defs movegen_defs attack_simps exec_defs)

lemma second_white_move_example:
  "getPiece (snd afterAdvance) (Position 2 4) = Some 2 \<and>
   color (fst afterAdvance ! 2) = WHITE \<and>
   last (moveHistory (snd afterAdvance)) = Move (Position 3 4) (Position 2 4) None False False \<and>
   Board_makeMove 1 (fst afterAdvance) (snd afterAdvance)
     (Move (Position 2 4) (Position 1 4) None False False) =
   Returns True
     (fst afterAdvance @ initialHeap,
      (placeAll [(Position 7 4, 0), (Position 0 4, 1), (Position 1 4, 2), (Position 3 3, 3)])
        \<lparr>moveHistory := [Move (Position 1 3) (Position 3 3) None False False,
                         Move (Position 3 4) (Position 2 4) None False False,
                         Move (Position 2 4) (Position 1 4) None False False],
         fullMoveNumber := 2\<rparr>) \<and>
   currentPlayer gameAfterAdvance = BLACK \<and>
   ChessGame_makeMove 1 (fst afterAdvance) gameAfterAdvance
     (Move (Position 2 4) (Position 1 4) None False False) =
   Returns False (fst afterAdvance, gameAfterAdvance)"
proof -
  have src: "getPiece (snd afterAdvance) (Position 2 4) = Some 2"
    and white: "color (fst afterAdvance ! 2) = WHITE"
    and hist: "last (moveHistory (snd afterAdvance)) =
               Move (Position 3 4) (Position 2 4) None False False"
    by (simp_all add: afterAdvance_def afterDoublePush_def place_defs getPiece_def)
  have turn: "currentPlayer gameAfterAdvance = BLACK"
    and brd: "board gameAfterAdvance = snd afterAdvance"
    by (simp_all add: gameAfterAdvance_def)
  note inst = Board_makeMove_asks_no_turn
      [where b = "snd afterAdvance" and h = "fst afterAdvance" and n = 1 and k = 2
        and m = "Move (Position 2 4) (Position 1 4) None False False"
        and ms = "[Move (Position 2 4) (Position 1 4) None False False]"
        and hs = "fst afterAdvance @ initialHeap"
        and g = gameAfterAdvance and hg = "fst afterAdvance" and ng = 1 and r = 2
        and mv = "Move (Position 2 4) (Position 1 4) None False False"]
  show ?thesis
    using inst src white hist turn brd afterAdvance_moves afterAdvance_simulation
      afterAdvance_second_white_move
    by simp
qed

text \<open>
  On the initial position the single step of the pawn on a2 is among that pawn's
  pseudo-legal moves, and \<^verbatim>\<open>Board.makeMove\<close> does not accept it: the check test of the
  simulation enters the recursion between the two unmoved kings, at every budget.
\<close>

lemma first_move_pseudo_legal:
  "getPiece initialBoard (Position 6 0) = Some 1 \<and>
   initialHeap ! 1 = piece WHITE PAWN False \<and>
   getPossibleMoves n initialHeap initialBoard (initialHeap ! 1) (Position 6 0) =
     Return [Move (Position 6 0) (Position 5 0) None False False,
             Move (Position 6 0) (Position 4 0) None False False]"
  unfolding initial_eqs by (simp add: movegen_defs getPossibleMoves.simps)

lemma first_move_never_accepted:
  "Board_makeMove n initialHeap initialBoard
     (Move (Position 6 0) (Position 5 0) None False False) =
   Diverges (markAsMoved (initialHeap @ initialHeap) 1, initialBoard)"
proof -
  from first_move_pseudo_legal [of n]
  have src: "getPiece initialBoard (Position 6 0) = Some 1"
    and pawn: "initialHeap ! 1 = piece WHITE PAWN False"
    and moves: "getPossibleMoves n initialHeap initialBoard (initialHeap ! 1) (Position 6 0) =
       Return [Move (Position 6 0) (Position 5 0) None False False,
               Move (Position 6 0) (Position 4 0) None False False]"
    by blast+
  from pawn have white: "color (initialHeap ! 1) = WHITE" by (simp add: piece_def)
  show ?thesis
    using src moves white first_candidate_diverges [of n]
    by (simp add: Board_makeMove_def isMoveValid_def andThen_def)
qed

text \<open>
  Through the notation entry point the overflow is caught: the first move of a new game is
  answered with false, and the pawn on a2 is left marked as moved.
\<close>

lemma first_move_through_notation_refused:
  "makeMoveFromAlgebraic n initialHeap initialGame (ascii ''a2'') (ascii ''a3'') None =
   Returns False (markAsMoved (initialHeap @ initialHeap) 1, initialGame)"
proof -
  have f: "fromAlgebraic (ascii ''a2'') = Return (JsPosition (Num 6) 0)"
    and t: "fromAlgebraic (ascii ''a3'') = Return (JsPosition (Num 5) 0)"
    by (simp_all add: notation_defs)
  have src: "getPiece initialBoard (Position 6 0) = Some 1"
    and white: "color (initialHeap ! 1) = WHITE"
    using first_move_pseudo_legal [of n] by (simp_all add: piece_def)
  show ?thesis
    using f t src white first_move_never_accepted [of n]
    by (simp add: makeMoveFromAlgebraic_def makeMoveParsed_def ChessGame_makeMove_def
        parsePromotion_def initialGame_eq)
qed

text \<open>
  C10. The claim says that \<^verbatim>\<open>Board.makeMove\<close> accepts and executes, in every board
  state, a pseudo-legal move that does not leave the mover's own king attacked, whichever
  side moved last. On the code this fails on the initial position: the step of the white
  pawn from a2 to a3 is pseudo-legal, and at every budget \<^verbatim>\<open>makeMove\<close> neither accepts nor
  executes it. The call runs out in the check test of the simulation; the board is as it
  was, and the store is the one in which the simulation has marked the pawn as moved.
\<close>

theorem Board_makeMove_initial_never_accepts:
  "getPiece initialBoard (Position 6 0) = Some 1 \<and>
   initialHeap ! 1 = piece WHITE PAWN False \<and>
   getPossibleMoves n initialHeap initialBoard (initialHeap ! 1) (Position 6 0) =
     Return [Move (Position 6 0) (Position 5 0) None False False,
             Move (Position 6 0) (Position 4 0) None False False] \<and>
   Board_makeMove n initialHeap initialBoard
     (Move (Position 6 0) (Position 5 0) None False False) =
     Diverges (markAsMoved (initialHeap @ initialHeap) 1, initialBoard)"
  using first_move_pseudo_legal [of n] first_move_never_accepted [of n] by blast

section \<open>Parsing of squares\<close>

text \<open>
  C5 as stated fails: the file letter is not accepted case-insensitively. \<^verbatim>\<open>"A1"\<close> gives
  column \<open>65 - 97\<close>, which the \<^verbatim>\<open>Position\<close> constructor rejects.
\<close>

theorem fromAlgebraic_uppercase_counterexample:
  "fromAlgebraic (ascii ''A1'') = Raise InvalidPosition"
  by (simp add: notation_defs)

text \<open>
  C5, amended. \<^verbatim>\<open>fromAlgebraic\<close> returns a square with a numeric row exactly on the
  two-character strings made of a lowercase file letter a to h and a rank digit 1 to 8, with
  the column the file index and the row 8 minus the rank; it fails on every other length, on
  every first character outside a to h and on the rank digits 0 and 9; and it inverts
  \<^verbatim>\<open>toAlgebraic\<close> on every valid square.
\<close>

theorem fromAlgebraic_lowercase:
  "(fromAlgebraic s = Return (JsPosition (Num r) c) \<longleftrightarrow>
      (\<exists>f d. s = [f, d] \<and> 97 \<le> f \<and> f \<le> 104 \<and> 49 \<le> d \<and> d \<le> 56 \<and>
             c = int f - 97 \<and> r = 8 - (int d - 48))) \<and>
   (length s \<noteq> 2 \<longrightarrow> fromAlgebraic s = Raise InvalidNotation) \<and>
   (length s = 2 \<and> (s ! 0 < 97 \<or> s ! 0 > 104) \<longrightarrow> fromAlgebraic s = Raise InvalidPosition) \<and>
   (length s = 2 \<and> (s ! 1 = 48 \<or> s ! 1 = 57) \<longrightarrow> fromAlgebraic s = Raise InvalidPosition) \<and>
   (validPosition p \<longrightarrow> fromAlgebraic (toAlgebraic p) = Return (JsPosition (Num (row p)) (col p)))"
proof (intro conjI impI)
  show "fromAlgebraic s = Return (JsPosition (Num r) c) \<longleftrightarrow>
      (\<exists>f d. s = [f, d] \<and> 97 \<le> f \<and> f \<le> 104 \<and> 49 \<le> d \<and> d \<le> 56 \<and>
             c = int f - 97 \<and> r = 8 - (int d - 48))"
  proof
    assume a: "fromAlgebraic s = Return (JsPosition (Num r) c)"
    then have "length s = 2" by (auto simp: fromAlgebraic_def split: if_splits)
    then obtain f d where s: "s = [f, d]"
      by (cases s; cases "tl s"; auto)
    with a show "\<exists>f d. s = [f, d] \<and> 97 \<le> f \<and> f \<le> 104 \<and> 49 \<le> d \<and> d \<le> 56 \<and>
             c = int f - 97 \<and> r = 8 - (int d - 48)"
      by (auto simp: notation_defs split: if_splits)
  next
    assume "\<exists>f d. s = [f, d] \<and> 97 \<le> f \<and> f \<le> 104 \<and> 49 \<le> d \<and> d \<le> 56 \<and>
             c = int f - 97 \<and> r = 8 - (int d - 48)"
    then show "fromAlgebraic s = Return (JsPosition (Num r) c)"
      by (auto simp: notation_defs)
  qed
next
  assume "length s \<noteq> 2"
  then show "fromAlgebraic s = Raise InvalidNotation"
    by (simp add: fromAlgebraic_def)
next
  assume "length s = 2 \<and> (s ! 0 < 97 \<or> s ! 0 > 104)"
  then show "fromAlgebraic s = Raise InvalidPosition"
    by (auto simp: notation_defs split: jsnum.splits)
next
  assume "length s = 2 \<and> (s ! 1 = 48 \<or> s ! 1 = 57)"
  then show "fromAlgebraic s = Raise InvalidPosition"
    by (auto simp: notation_defs)
next
  assume "validPosition p"
  then show "fromAlgebraic (toAlgebraic p) = Return (JsPosition (Num (row p)) (col p))"
    by (cases p) (auto simp: notation_defs validPosition_def nat_add_distrib)
qed

theorem fromAlgebraic_lowercase_witness:
  "fromAlgebraic (ascii ''e4'') = Return (JsPosition (Num 4) 4) \<and>
   fromAlgebraic (ascii ''e'') = Raise InvalidNotation \<and>
   fromAlgebraic (ascii ''E4'') = Raise InvalidPosition \<and>
   fromAlgebraic (ascii ''e9'') = Raise InvalidPosition \<and>
   validPosition (Position 4 4) \<and>
   fromAlgebraic (toAlgebraic (Position 4 4)) = Return (JsPosition (Num 4) 4)"
  using fromAlgebraic_lowercase [of "ascii ''e4''" 4 4 "Position 4 4"]
    fromAlgebraic_lowercase [of "ascii ''e''" 4 4 "Position 4 4"]
    fromAlgebraic_lowercase [of "ascii ''E4''" 4 4 "Position 4 4"]
    fromAlgebraic_lowercase [of "ascii ''e9''" 4 4 "Position 4 4"]
  by (simp add: ascii_def validPosition_def)

text \<open>
  A rank character that is not a digit is not rejected either: the row is \<^verbatim>\<open>NaN\<close>, which
  no comparison of the constructor's range test catches.
\<close>

lemma fromAlgebraic_not_a_digit:
  "fromAlgebraic (ascii ''ax'') = Return (JsPosition NaN 0)"
  by (simp add: notation_defs)

end
